theory Spec2Isabelle
  imports Complex_Main "HOL-Library.Log_Nat"
begin

section \<open>JavaScript values and errors\<close>

text \<open>
  The program of \<^verbatim>\<open>js/app.js\<close> works on values produced by \<^verbatim>\<open>JSON.parse\<close>:
  the statements of a Learning Record Store. A value is \<open>null\<close>, a boolean, a number,
  a string, an array or an object (its properties in insertion order). A number is a
  rational, the exact value of a double, or \<open>Infinity\<close>, which the arithmetic of
  \<open>iso8601ToSeconds\<close> can produce; that arithmetic rounds as IEEE 754 does, while
  \<^verbatim>\<open>JSON.parse\<close> keeps the value of the decimal that it reads. Strings are lists of
  8-bit characters. JavaScript's \<open>undefined\<close> is the \<open>None\<close> of \<open>json option\<close>.
\<close>

datatype json =
    JNull
  | JBool bool
  | JNum rat
  | JInfinity
  | JStr string
  | JArr "json list"
  | JObj "(string \<times> json) list"

type_synonym jsval = "json option"

text \<open>The exceptions the code can raise, by the name of their constructor.\<close>

datatype js_error = TypeError | SyntaxError | RangeError | Error string

section \<open>String primitives\<close>

text \<open>\<^verbatim>\<open>s.startsWith(p)\<close>, used to find a separator at the current position.\<close>

fun startsWith :: "string \<Rightarrow> string \<Rightarrow> bool" where
  "startsWith s [] = True"
| "startsWith [] (p # ps) = False"
| "startsWith (c # cs) (p # ps) = (c = p \<and> startsWith cs ps)"

text \<open>
  \<^verbatim>\<open>s.split(sep)\<close> for a non-empty separator string: the pieces between the
  occurrences of \<open>sep\<close>, found from left to right without overlap. The accumulator holds
  the current piece reversed. The empty string gives one empty piece. (With the empty
  separator JavaScript gives the characters one by one.)
\<close>

fun splitFrom :: "string \<Rightarrow> string \<Rightarrow> string \<Rightarrow> string list" where
  "splitFrom sep acc [] = [rev acc]"
| "splitFrom sep acc (c # cs) =
     (if startsWith (c # cs) sep
      then rev acc # splitFrom sep [] (drop (length sep - 1) cs)
      else splitFrom sep (c # acc) cs)"

definition split :: "string \<Rightarrow> string \<Rightarrow> string list" where
  "split s sep = (if sep = [] then map (\<lambda>c. [c]) s else splitFrom sep [] s)"

text \<open>\<^verbatim>\<open>s.charAt(0)\<close>: the first character as a string, or the empty string.\<close>

definition charAt0 :: "string \<Rightarrow> string" where
  "charAt0 s = take 1 s"

text \<open>\<^verbatim>\<open>s.repeat(n)\<close> raises a RangeError when the count is negative.\<close>

definition repeat :: "string \<Rightarrow> int \<Rightarrow> js_error + string" where
  "repeat s n = (if n < 0 then Inl RangeError else Inr (concat (replicate (nat n) s)))"

section \<open>Anonymisation\<close>

text \<open>
  \<^verbatim>\<open>
  function obfuscateEmail(email) {
      const [localPart, domain] = email.split('@');
      const obfuscatedLocalPart = localPart.charAt(0) + '*'.repeat(localPart.length - 1);
      return `${obfuscatedLocalPart}@${domain}`;
  }
  \<close>
  The destructuring takes the first two pieces of the split; the split always has a first
  piece, and when there is no second one \<open>domain\<close> is \<open>undefined\<close>, which the template
  prints as the word \<open>undefined\<close>.
\<close>

definition obfuscateEmail :: "string \<Rightarrow> js_error + string" where
  "obfuscateEmail email =
     (let parts = split email ''@'';
          localPart = (case parts of [] \<Rightarrow> [] | p # _ \<Rightarrow> p);
          domain = (case parts of _ # d # _ \<Rightarrow> d | _ \<Rightarrow> ''undefined'')
      in case repeat ''*'' (int (length localPart) - 1) of
           Inl e \<Rightarrow> Inl e
         | Inr stars \<Rightarrow> Inr ((charAt0 localPart @ stars) @ ''@'' @ domain))"

section \<open>Durations\<close>

text \<open>The character class \<^verbatim>\<open>\d\<close> of a JavaScript regular expression: the ten ASCII digits.\<close>

definition isDigit :: "char \<Rightarrow> bool" where
  "isDigit c = (c \<in> set ''0123456789'')"

definition digitVal :: "char \<Rightarrow> nat" where
  "digitVal c = of_char c - 48"

text \<open>The integer that a string of decimal digits denotes.\<close>

definition digitsValue :: "string \<Rightarrow> nat" where
  "digitsValue ds = foldl (\<lambda>n c. 10 * n + digitVal c) 0 ds"

subsection \<open>Double-precision arithmetic\<close>

text \<open>
  The numbers of JavaScript are IEEE 754 doubles, and every operation rounds its exact
  result to the nearest double, a tie going to the double whose last bit is even. The
  numbers that \<open>iso8601ToSeconds\<close> computes with are not negative: such a number is a
  rational, the exact value of a finite double, or \<open>Infinity\<close>. (Negative infinity, NaN and
  the sign of zero, which no operation of this function produces, have no value in this
  type.)
\<close>

datatype number = Finite rat | Infinity

text \<open>The power \<open>2 ^ e\<close> for an integer \<open>e\<close>.\<close>

definition pow2 :: "int \<Rightarrow> rat" where
  "pow2 e = (if 0 \<le> e then 2 ^ nat e else 1 / 2 ^ nat (- e))"

text \<open>
  The binary exponent of a positive rational: the integer \<open>n\<close> with
  \<open>2 ^ n \<le> x < 2 ^ (n + 1)\<close>, read from the length in bits of the integer part of
  \<open>x\<close>, or of \<open>1 / x\<close> when \<open>x\<close> is below 1.
\<close>

definition ilog2 :: "rat \<Rightarrow> int" where
  "ilog2 x = (if 1 \<le> x then bitlen \<lfloor>x\<rfloor> - 1 else - bitlen (\<lceil>1 / x\<rceil> - 1))"

text \<open>The integer nearest to a rational, a tie going to the even one.\<close>

definition roundToEven :: "rat \<Rightarrow> int" where
  "roundToEven y =
     (let f = \<lfloor>y\<rfloor>; r = y - of_int f
      in if r < 1 / 2 then f else if 1 / 2 < r then f + 1 else if even f then f else f + 1)"

text \<open>
  The double nearest to a rational. A double has 53 significant bits, so near \<open>x\<close> the
  doubles are the multiples of \<open>2 ^ e\<close> with \<open>e\<close> the exponent of \<open>x\<close> less 52, and
  not less than -1074 (below \<open>2 ^ -1022\<close> the doubles are the multiples of
  \<open>2 ^ -1074\<close>). A magnitude that rounds to \<open>2 ^ 1024\<close> or more overflows to
  \<open>Infinity\<close>. (The magnitude of a negative rational is rounded in the same way; no
  negative number arises here.)
\<close>

definition roundDouble :: "rat \<Rightarrow> number" where
  "roundDouble x =
     (if x = 0 then Finite 0
      else let e = max (ilog2 \<bar>x\<bar> - 52) (- 1074);
               r = of_int (roundToEven (\<bar>x\<bar> / pow2 e)) * pow2 e
           in if 2 ^ 1024 \<le> r then Infinity else Finite (sgn x * r))"

text \<open>
  The operators \<^verbatim>\<open>+\<close> and \<^verbatim>\<open>*\<close> on numbers: the exact result, rounded. \<open>Infinity\<close> plus a
  number is \<open>Infinity\<close>, and so is \<open>Infinity\<close> times a positive number; the code multiplies
  by 3600 and by 60 only.
\<close>

fun numAdd :: "number \<Rightarrow> number \<Rightarrow> number" where
  "numAdd (Finite a) (Finite b) = roundDouble (a + b)"
| "numAdd a b = Infinity"

fun numMul :: "number \<Rightarrow> number \<Rightarrow> number" where
  "numMul (Finite a) (Finite b) = roundDouble (a * b)"
| "numMul a b = Infinity"

text \<open>A number as a value of the language.\<close>

fun numberValue :: "number \<Rightarrow> json" where
  "numberValue (Finite q) = JNum q"
| "numberValue Infinity = JInfinity"

text \<open>
  \<^verbatim>\<open>parseInt\<close> on a string of digits, as the groups 1 to 3 of the pattern hold: the
  double nearest to the integer that the digits denote.
\<close>

definition parseInt :: "string \<Rightarrow> number" where
  "parseInt ds = roundDouble (of_nat (digitsValue ds))"

text \<open>
  \<^verbatim>\<open>parseFloat\<close> on a dot followed by digits, as group 4 of the pattern holds: the
  double nearest to the decimal fraction that the digits denote.
\<close>

definition parseFloat :: "string \<Rightarrow> number" where
  "parseFloat s = roundDouble (of_nat (digitsValue (drop 1 s)) / 10 ^ length (drop 1 s))"

subsection \<open>The pattern of a duration\<close>

text \<open>
  The pattern \<^verbatim>\<open>/^PT(?:(\d+)H)?(?:(\d+)M)?(?:(\d+)(\.\d+)?S)?$/\<close> is matched from
  left to right. \<open>digitsThen\<close> is \<^verbatim>\<open>(\d+)X\<close> for a letter \<open>X\<close>: the longest run of
  digits, which must not be empty, and then the letter. A shorter run of digits never helps,
  since the character after it would be a digit and not the letter; so each optional group
  is taken when it matches here and left out otherwise.
\<close>

definition digitsThen :: "char \<Rightarrow> string \<Rightarrow> (string \<times> string) option" where
  "digitsThen letter s =
     (let ds = takeWhile isDigit s in
      case dropWhile isDigit s of
        [] \<Rightarrow> None
      | c # rest \<Rightarrow> if ds \<noteq> [] \<and> c = letter then Some (ds, rest) else None)"

text \<open>\<^verbatim>\<open>(?:(\d+)X)?\<close>: the group's digits, if it matches, and the rest of the input.\<close>

definition optGroup :: "char \<Rightarrow> string \<Rightarrow> string option \<times> string" where
  "optGroup letter s =
     (case digitsThen letter s of Some (ds, rest) \<Rightarrow> (Some ds, rest) | None \<Rightarrow> (None, s))"

text \<open>\<^verbatim>\<open>(?:(\d+)(\.\d+)?S)?\<close>: groups 3 and 4 and the rest of the input.\<close>

definition secondsGroup :: "string \<Rightarrow> string option \<times> string option \<times> string" where
  "secondsGroup s =
     (let ds = takeWhile isDigit s in
      if ds = [] then (None, None, s)
      else case dropWhile isDigit s of
        [] \<Rightarrow> (None, None, s)
      | c # rest \<Rightarrow>
          if c = CHR ''S'' then (Some ds, None, rest)
          else if c = CHR ''.'' then
            (case digitsThen (CHR ''S'') rest of
               Some (fs, rest') \<Rightarrow> (Some ds, Some (CHR ''.'' # fs), rest')
             | None \<Rightarrow> (None, None, s))
          else (None, None, s))"

text \<open>\<^verbatim>\<open>duration.match(pattern)\<close>: the four groups, or \<open>None\<close> for \<open>null\<close>.\<close>

definition matchDuration ::
  "string \<Rightarrow> (string option \<times> string option \<times> string option \<times> string option) option" where
  "matchDuration duration =
     (if startsWith duration ''PT'' then
        (case optGroup (CHR ''H'') (drop 2 duration) of (m1, r1) \<Rightarrow>
         case optGroup (CHR ''M'') r1 of (m2, r2) \<Rightarrow>
         case secondsGroup r2 of (m3, m4, r3) \<Rightarrow>
           if r3 = [] then Some (m1, m2, m3, m4) else None)
      else None)"

text \<open>
  \<^verbatim>\<open>
  function iso8601ToSeconds(duration) {
      const pattern = /^PT(?:(\d+)H)?(?:(\d+)M)?(?:(\d+)(\.\d+)?S)?$/;
      const matches = duration.match(pattern);
      if (matches) {
          const hours = matches[1] ? parseInt(matches[1]) : 0;
          const minutes = matches[2] ? parseInt(matches[2]) : 0;
          const seconds = matches[3] ? parseInt(matches[3]) : 0;
          const fractional = matches[4] ? parseFloat(matches[4]) : 0.0;
          const totalSeconds = hours * 3600 + minutes * 60 + seconds + fractional;
          return totalSeconds;
      } else {
          return ""; // Return empty string for invalid format
      }
  }
  \<close>
  A group that took part in the match is a non-empty string, which is truthy.
\<close>

definition iso8601ToSeconds :: "string \<Rightarrow> json" where
  "iso8601ToSeconds duration =
     (case matchDuration duration of
        Some (m1, m2, m3, m4) \<Rightarrow>
          (let hours = (case m1 of Some x \<Rightarrow> parseInt x | None \<Rightarrow> Finite 0);
               minutes = (case m2 of Some x \<Rightarrow> parseInt x | None \<Rightarrow> Finite 0);
               seconds = (case m3 of Some x \<Rightarrow> parseInt x | None \<Rightarrow> Finite 0);
               fractional = (case m4 of Some x \<Rightarrow> parseFloat x | None \<Rightarrow> Finite 0);
               totalSeconds =
                 numAdd (numAdd (numAdd (numMul hours (Finite 3600)) (numMul minutes (Finite 60)))
                           seconds)
                   fractional
           in numberValue totalSeconds)
      | None \<Rightarrow> JStr [])"

text \<open>
  The well-formed durations, following the words of the specification (the format
  \<open>PT#H#M#S\<close> with optional fractional seconds), not the code: after \<open>PT\<close>, an
  optional number of hours and \<open>H\<close>, an optional number of minutes and \<open>M\<close>, an optional
  number of seconds, with an optional fraction, and \<open>S\<close>. A number is one or more digits.
\<close>

definition digits :: "string \<Rightarrow> bool" where
  "digits ds = (ds \<noteq> [] \<and> list_all isDigit ds)"

fun partText :: "char \<Rightarrow> string option \<Rightarrow> string" where
  "partText letter None = []"
| "partText letter (Some ds) = ds @ [letter]"

fun secondsText :: "(string \<times> string option) option \<Rightarrow> string" where
  "secondsText None = []"
| "secondsText (Some (ds, None)) = ds @ ''S''"
| "secondsText (Some (ds, Some fs)) = ds @ ''.'' @ fs @ ''S''"

definition durationText ::
  "string option \<Rightarrow> string option \<Rightarrow> (string \<times> string option) option \<Rightarrow> string" where
  "durationText h m s = ''PT'' @ partText (CHR ''H'') h @ partText (CHR ''M'') m @ secondsText s"

fun wellFormedPart :: "string option \<Rightarrow> bool" where
  "wellFormedPart None = True"
| "wellFormedPart (Some ds) = digits ds"

fun wellFormedSeconds :: "(string \<times> string option) option \<Rightarrow> bool" where
  "wellFormedSeconds None = True"
| "wellFormedSeconds (Some (ds, f)) = (digits ds \<and> wellFormedPart f)"

text \<open>
  The numbers that the parts of a well-formed duration denote, an absent part counting as
  zero: as integers and as a decimal fraction, and the total number of seconds in exact
  arithmetic.
\<close>

fun partInteger :: "string option \<Rightarrow> nat" where
  "partInteger None = 0"
| "partInteger (Some ds) = digitsValue ds"

fun secondsInteger :: "(string \<times> string option) option \<Rightarrow> nat" where
  "secondsInteger None = 0"
| "secondsInteger (Some (ds, f)) = digitsValue ds"

fun fractionRational :: "(string \<times> string option) option \<Rightarrow> rat" where
  "fractionRational (Some (ds, Some fs)) = of_nat (digitsValue fs) / 10 ^ length fs"
| "fractionRational s = 0"

definition exactSeconds ::
  "string option \<Rightarrow> string option \<Rightarrow> (string \<times> string option) option \<Rightarrow> rat" where
  "exactSeconds h m s =
     of_nat (partInteger h * 3600 + partInteger m * 60 + secondsInteger s) + fractionRational s"

text \<open>The same numbers as doubles: each is the double nearest to the exact number.\<close>

definition partValue :: "string option \<Rightarrow> number" where
  "partValue p = roundDouble (of_nat (partInteger p))"

definition secondsValue :: "(string \<times> string option) option \<Rightarrow> number" where
  "secondsValue s = roundDouble (of_nat (secondsInteger s))"

definition fractionValue :: "(string \<times> string option) option \<Rightarrow> number" where
  "fractionValue s = roundDouble (fractionRational s)"

text \<open>
  The total number of seconds in the arithmetic of the language: the products and the sums
  of \<open>hours * 3600 + minutes * 60 + seconds + fractional\<close>, from left to right, each
  rounded to a double.
\<close>

definition roundedSeconds ::
  "string option \<Rightarrow> string option \<Rightarrow> (string \<times> string option) option \<Rightarrow> number" where
  "roundedSeconds h m s =
     numAdd (numAdd (numAdd (numMul (partValue h) (Finite 3600)) (numMul (partValue m) (Finite 60)))
               (secondsValue s))
       (fractionValue s)"

section \<open>Operations of the language\<close>

text \<open>
  A call that can raise is a value of \<open>js_error + 'a\<close>; \<open>andThen\<close> runs the next
  step on the result of the first and passes an exception on.
\<close>

definition andThen :: "js_error + 'a \<Rightarrow> ('a \<Rightarrow> js_error + 'b) \<Rightarrow> js_error + 'b" where
  "andThen m f = (case m of Inl e \<Rightarrow> Inl e | Inr x \<Rightarrow> f x)"

text \<open>
  Truthiness, as \<^verbatim>\<open>if (x)\<close>, \<^verbatim>\<open>x && y\<close> and \<^verbatim>\<open>x ? y : z\<close> test it: \<open>undefined\<close>,
  \<open>null\<close>, \<open>false\<close>, zero and the empty string are falsy, every other value is truthy.
\<close>

fun truthy :: "jsval \<Rightarrow> bool" where
  "truthy None = False"
| "truthy (Some JNull) = False"
| "truthy (Some (JBool b)) = b"
| "truthy (Some (JNum n)) = (n \<noteq> 0)"
| "truthy (Some JInfinity) = True"
| "truthy (Some (JStr s)) = (s \<noteq> [])"
| "truthy (Some (JArr xs)) = True"
| "truthy (Some (JObj kvs)) = True"

text \<open>
  The value of the property \<open>k\<close> of \<open>v\<close>, for the property names this program
  reads (none of them is a property that strings, numbers, booleans or arrays have of their
  own): the property's value on an object that has it, and \<open>undefined\<close> otherwise.
\<close>

fun field :: "jsval \<Rightarrow> string \<Rightarrow> jsval" where
  "field (Some (JObj kvs)) k = map_of kvs k"
| "field v k = None"

text \<open>The property read \<^verbatim>\<open>v.k\<close>: a TypeError when \<open>v\<close> is \<open>undefined\<close> or \<open>null\<close>.\<close>

definition getProp :: "jsval \<Rightarrow> string \<Rightarrow> js_error + jsval" where
  "getProp v k = (if v = None \<or> v = Some JNull then Inl TypeError else Inr (field v k))"

text \<open>\<^verbatim>\<open>pieces.join(sep)\<close> on strings.\<close>

fun join :: "string \<Rightarrow> string list \<Rightarrow> string" where
  "join sep [] = []"
| "join sep [x] = x"
| "join sep (x # y # ys) = x @ sep @ join sep (y # ys)"

text \<open>
  Numbers as text. JavaScript prints the shortest decimal that reads back as the same
  double, and uses an exponent outside \<open>[1e-6, 1e21)\<close>; the model prints the integer part
  and up to 17 digits of the fraction, which is the same text for the integers of that range
  and for the doubles whose decimal expansion ends there, such as 0.5 or 15.25. (For
  another double the text of the model is longer than JavaScript's: 0.11799999999999999
  for the double that JavaScript prints as 0.118.)
\<close>

definition digitChar :: "nat \<Rightarrow> char" where
  "digitChar n = ''0123456789'' ! (n mod 10)"

fun showNat :: "nat \<Rightarrow> string" where
  "showNat n = (if n < 10 then [digitChar n] else showNat (n div 10) @ [digitChar (n mod 10)])"

declare showNat.simps [simp del]

fun fractionDigits :: "nat \<Rightarrow> rat \<Rightarrow> string" where
  "fractionDigits 0 q = []"
| "fractionDigits (Suc k) q =
     (if q = 0 then []
      else digitChar (nat \<lfloor>q * 10\<rfloor>) # fractionDigits k (q * 10 - of_int \<lfloor>q * 10\<rfloor>))"

definition numberToString :: "rat \<Rightarrow> string" where
  "numberToString q =
     (let a = \<bar>q\<bar>; f = a - of_int \<lfloor>a\<rfloor>
      in (if q < 0 then ''-'' else []) @ showNat (nat \<lfloor>a\<rfloor>)
         @ (if f = 0 then [] else ''.'' @ fractionDigits 17 f))"

text \<open>
  The conversion to a string that a template literal, a string concatenation and the
  argument of \<^verbatim>\<open>JSON.parse\<close> apply. An array prints its elements joined by commas, with
  \<open>null\<close> printed as nothing; an object (without a \<open>toString\<close> of its own) prints as
  \<^verbatim>\<open>[object Object]\<close>.
\<close>

fun toStr :: "json \<Rightarrow> string" where
  "toStr JNull = ''null''"
| "toStr (JBool b) = (if b then ''true'' else ''false'')"
| "toStr (JNum n) = numberToString n"
| "toStr JInfinity = ''Infinity''"
| "toStr (JStr s) = s"
| "toStr (JArr xs) = join '','' (map (\<lambda>x. if x = JNull then [] else toStr x) xs)"
| "toStr (JObj kvs) = ''[object Object]''"

definition ToString :: "jsval \<Rightarrow> string" where
  "ToString v = (case v of None \<Rightarrow> ''undefined'' | Some x \<Rightarrow> toStr x)"

text \<open>
  \<^verbatim>\<open>Object.values(v)[0]\<close> for a truthy \<open>v\<close>: the value of the first property of an
  object (in insertion order; JavaScript lists keys that are array indices before the
  others), the first element of an array, the first character of a string, and
  \<open>undefined\<close> when there is none.
\<close>

fun firstValue :: "json \<Rightarrow> jsval" where
  "firstValue (JObj kvs) = (case kvs of [] \<Rightarrow> None | kv # _ \<Rightarrow> Some (snd kv))"
| "firstValue (JArr xs) = (case xs of [] \<Rightarrow> None | x # _ \<Rightarrow> Some x)"
| "firstValue (JStr s) = (case s of [] \<Rightarrow> None | c # _ \<Rightarrow> Some (JStr [c]))"
| "firstValue v = None"

text \<open>
  \<^verbatim>\<open>s.replace(p, '')\<close> for a string pattern \<open>p\<close>: the first occurrence of \<open>p\<close> is
  removed.
\<close>

fun removeFirst :: "string \<Rightarrow> string \<Rightarrow> string" where
  "removeFirst p [] = []"
| "removeFirst p (c # cs) =
     (if startsWith (c # cs) p then drop (length p) (c # cs) else c # removeFirst p cs)"

text \<open>\<^verbatim>\<open>s.trim()\<close>: white space is removed at both ends (the ASCII white space here).\<close>

definition isSpace :: "char \<Rightarrow> bool" where
  "isSpace c = (c \<in> set [CHR '' '', CHR 0x09, CHR 0x0A, CHR 0x0B, CHR 0x0C, CHR 0x0D])"

definition trim :: "string \<Rightarrow> string" where
  "trim s = rev (dropWhile isSpace (rev (dropWhile isSpace s)))"

text \<open>
  \<^verbatim>\<open>s.replace(/^X|Y$/g, '')\<close> for two characters \<open>X\<close> and \<open>Y\<close>: an \<open>X\<close> at the very
  start is removed, and then a \<open>Y\<close> at the very end of what is left of the input.
\<close>

definition stripEnds :: "char \<Rightarrow> char \<Rightarrow> string \<Rightarrow> string" where
  "stripEnds x y s =
     (let s1 = (case s of c # cs \<Rightarrow> if c = x then cs else s | [] \<Rightarrow> s)
      in if s1 \<noteq> [] \<and> last s1 = y then butlast s1 else s1)"

section \<open>JSON.parse\<close>

text \<open>
  \<^verbatim>\<open>JSON.parse\<close> is part of the language, not of this program; the model follows the
  JSON grammar. \<open>None\<close> stands for the SyntaxError it raises. The parser of values takes
  a list as fuel, one element for every value, array element and object member it starts;
  the input itself with one more character is always enough.
\<close>

definition isWs :: "char \<Rightarrow> bool" where
  "isWs c = (c \<in> set [CHR '' '', CHR 0x09, CHR 0x0A, CHR 0x0D])"

definition skipWs :: "string \<Rightarrow> string" where
  "skipWs s = dropWhile isWs s"

definition hexVal :: "char \<Rightarrow> nat option" where
  "hexVal c = map_of (zip ''0123456789abcdefABCDEF''
     [0, 1, 2, 3, 4, 5, 6, 7, 8, 9, 10, 11, 12, 13, 14, 15, 10, 11, 12, 13, 14, 15]) c"

text \<open>The four hexadecimal digits of a \<^verbatim>\<open>\uXXXX\<close> escape.\<close>

definition hex4 :: "string \<Rightarrow> nat option" where
  "hex4 s =
     (case map hexVal (take 4 s) of
        [Some a, Some b, Some c, Some d] \<Rightarrow> Some (((a * 16 + b) * 16 + c) * 16 + d)
      | _ \<Rightarrow> None)"

definition unescape :: "char \<Rightarrow> char option" where
  "unescape e = map_of [(CHR 0x22, CHR 0x22), (CHR 0x5C, CHR 0x5C), (CHR ''/'', CHR ''/''),
     (CHR ''b'', CHR 0x08), (CHR ''f'', CHR 0x0C), (CHR ''n'', CHR 0x0A),
     (CHR ''r'', CHR 0x0D), (CHR ''t'', CHR 0x09)] e"

text \<open>
  The characters of a string literal after its opening quote, up to the closing quote. A
  control character must be escaped. The code of a \<^verbatim>\<open>\uXXXX\<close> escape is kept modulo
  256, characters being 8 bits wide here.
\<close>

fun parseChars :: "string \<Rightarrow> string \<Rightarrow> (string \<times> string) option" where
  "parseChars acc [] = None"
| "parseChars acc (c # cs) =
     (if c = CHR 0x22 then Some (rev acc, cs)
      else if c = CHR 0x5C then
        (case cs of
           [] \<Rightarrow> None
         | e # cs' \<Rightarrow>
             if e = CHR ''u'' then
               (case hex4 cs' of
                  Some code \<Rightarrow> parseChars (char_of code # acc) (drop 4 cs')
                | None \<Rightarrow> None)
             else
               (case unescape e of
                  Some ch \<Rightarrow> parseChars (ch # acc) cs'
                | None \<Rightarrow> None))
      else if (of_char c :: nat) < 32 then None
      else parseChars (c # acc) cs)"

text \<open>One or more digits, and the rest.\<close>

definition someDigits :: "string \<Rightarrow> (string \<times> string) option" where
  "someDigits s =
     (if takeWhile isDigit s = [] then None
      else Some (takeWhile isDigit s, dropWhile isDigit s))"

text \<open>
  A number: an optional minus sign, an integer part (a single \<open>0\<close>, or digits that do not
  start with \<open>0\<close>), an optional fraction and an optional exponent.
\<close>

definition parseFraction :: "string \<Rightarrow> (rat \<times> string) option" where
  "parseFraction s =
     (case s of
        c # cs \<Rightarrow>
          if c = CHR ''.'' then
            (case someDigits cs of
               Some (fs, rest) \<Rightarrow> Some (of_nat (digitsValue fs) / 10 ^ length fs, rest)
             | None \<Rightarrow> None)
          else Some (0, s)
      | [] \<Rightarrow> Some (0, s))"

definition parseExponent :: "string \<Rightarrow> (rat \<times> string) option" where
  "parseExponent s =
     (case s of
        c # cs \<Rightarrow>
          if c = CHR ''e'' \<or> c = CHR ''E'' then
            (let neg = (case cs of d # _ \<Rightarrow> d = CHR ''-'' | [] \<Rightarrow> False);
                 signed = (case cs of d # _ \<Rightarrow> d = CHR ''-'' \<or> d = CHR ''+'' | [] \<Rightarrow> False)
             in case someDigits (if signed then drop 1 cs else cs) of
                  Some (es, rest) \<Rightarrow>
                    Some (if neg then 1 / 10 ^ digitsValue es else 10 ^ digitsValue es, rest)
                | None \<Rightarrow> None)
          else Some (1, s)
      | [] \<Rightarrow> Some (1, s))"

definition parseNumber :: "string \<Rightarrow> (rat \<times> string) option" where
  "parseNumber s =
     (let neg = (case s of c # _ \<Rightarrow> c = CHR ''-'' | [] \<Rightarrow> False);
          s1 = (if neg then drop 1 s else s);
          whole = (case s1 of
                     c # cs \<Rightarrow> if c = CHR ''0'' then Some (''0'', cs) else someDigits s1
                   | [] \<Rightarrow> None)
      in case whole of
           None \<Rightarrow> None
         | Some (ds, s2) \<Rightarrow>
             (case parseFraction s2 of
                None \<Rightarrow> None
              | Some (f, s3) \<Rightarrow>
                  (case parseExponent s3 of
                     None \<Rightarrow> None
                   | Some (e, s4) \<Rightarrow>
                       Some ((if neg then - 1 else 1) * (of_nat (digitsValue ds) + f) * e, s4))))"

text \<open>Setting a property: a key that is there keeps its place and takes the new value.\<close>

fun setProp :: "string \<Rightarrow> json \<Rightarrow> (string \<times> json) list \<Rightarrow> (string \<times> json) list" where
  "setProp k v [] = [(k, v)]"
| "setProp k v (kv # kvs) = (if fst kv = k then (k, v) # kvs else kv # setProp k v kvs)"

fun parseValue :: "string \<Rightarrow> string \<Rightarrow> (json \<times> string) option"
  and parseElements :: "string \<Rightarrow> json list \<Rightarrow> string \<Rightarrow> (json list \<times> string) option"
  and parseMembers ::
    "string \<Rightarrow> (string \<times> json) list \<Rightarrow> string \<Rightarrow> ((string \<times> json) list \<times> string) option"
where
  "parseValue [] s = None"
| "parseValue (f # fuel) s =
     (case s of
        [] \<Rightarrow> None
      | c # cs \<Rightarrow>
          if startsWith s ''null'' then Some (JNull, drop 4 s)
          else if startsWith s ''true'' then Some (JBool True, drop 4 s)
          else if startsWith s ''false'' then Some (JBool False, drop 5 s)
          else if c = CHR 0x22 then
            (case parseChars [] cs of
               Some (str, rest) \<Rightarrow> Some (JStr str, rest)
             | None \<Rightarrow> None)
          else if c = CHR ''['' then
            (case skipWs cs of
               [] \<Rightarrow> None
             | d # ds \<Rightarrow>
                 if d = CHR '']'' then Some (JArr [], ds)
                 else (case parseElements fuel [] (d # ds) of
                         Some (xs, rest) \<Rightarrow> Some (JArr xs, rest)
                       | None \<Rightarrow> None))
          else if c = CHR ''{'' then
            (case skipWs cs of
               [] \<Rightarrow> None
             | d # ds \<Rightarrow>
                 if d = CHR ''}'' then Some (JObj [], ds)
                 else (case parseMembers fuel [] (d # ds) of
                         Some (kvs, rest) \<Rightarrow> Some (JObj kvs, rest)
                       | None \<Rightarrow> None))
          else (case parseNumber s of
                  Some (n, rest) \<Rightarrow> Some (JNum n, rest)
                | None \<Rightarrow> None))"
| "parseElements [] acc s = None"
| "parseElements (f # fuel) acc s =
     (case parseValue fuel s of
        None \<Rightarrow> None
      | Some (v, rest) \<Rightarrow>
          (case skipWs rest of
             [] \<Rightarrow> None
           | d # ds \<Rightarrow>
               if d = CHR '']'' then Some (acc @ [v], ds)
               else if d = CHR '','' then parseElements fuel (acc @ [v]) (skipWs ds)
               else None))"
| "parseMembers [] acc s = None"
| "parseMembers (f # fuel) acc s =
     (case s of
        [] \<Rightarrow> None
      | q # s1 \<Rightarrow>
          if q \<noteq> CHR 0x22 then None
          else (case parseChars [] s1 of
                  None \<Rightarrow> None
                | Some (k, s2) \<Rightarrow>
                    (case skipWs s2 of
                       [] \<Rightarrow> None
                     | colon # s3 \<Rightarrow>
                         if colon \<noteq> CHR '':'' then None
                         else (case parseValue fuel (skipWs s3) of
                                 None \<Rightarrow> None
                               | Some (v, rest) \<Rightarrow>
                                   (case skipWs rest of
                                      [] \<Rightarrow> None
                                    | d # ds \<Rightarrow>
                                        if d = CHR ''}'' then Some (setProp k v acc, ds)
                                        else if d = CHR '','' then
                                          parseMembers fuel (setProp k v acc) (skipWs ds)
                                        else None)))))"

definition JSON_parse :: "string \<Rightarrow> json option" where
  "JSON_parse text =
     (case parseValue (CHR ''.'' # text) (skipWs text) of
        Some (v, rest) \<Rightarrow> if skipWs rest = [] then Some v else None
      | None \<Rightarrow> None)"

text \<open>
  \<^verbatim>\<open>JSON.parse(v)\<close> in the program: the argument is converted to a string first, and
  a text that is not JSON raises a SyntaxError.
\<close>

definition jsonParse :: "jsval \<Rightarrow> js_error + json" where
  "jsonParse v = (case JSON_parse (ToString v) of None \<Rightarrow> Inl SyntaxError | Some x \<Rightarrow> Inr x)"

section \<open>The tabular row\<close>

text \<open>
  \<^verbatim>\<open>
  function processStringToArray(inputString) {
      let trimmedString = inputString.trim().replace(/^\[|\]$/g, '');
      trimmedString = trimmedString.replace(/^"|"$/g, '');
      const array = trimmedString.split('[,]');
      return array;
  }
  \<close>
  The argument is a property of a statement's result: only a string has \<open>trim\<close>, so
  every other value, \<open>undefined\<close> too, raises a TypeError.
\<close>

definition processStringToArray :: "jsval \<Rightarrow> js_error + string list" where
  "processStringToArray inputString =
     (case inputString of
        Some (JStr str) \<Rightarrow>
          (let trimmedString = stripEnds (CHR ''['') (CHR '']'') (trim str);
               trimmedString = stripEnds (CHR 0x22) (CHR 0x22) trimmedString;
               array = split trimmedString ''[,]''
           in Inr array)
      | _ \<Rightarrow> Inl TypeError)"

text \<open>
  The four question fields of a row, and the loop over the choices (lines 215 to 241):
  \<^verbatim>\<open>
  let questionAnswers = "";
  let questionPassed = "";
  let questionCorrectAnswers = "";
  let usersAnswer = "";

  if (s.result && s.result.response) {
      const res = JSON.parse(s.result.response);
      questionPassed = res.success ? 'True' : 'False';
      let i = 1;
      JSON.parse(s.result.choices).forEach(choice => {
          questionAnswers += `id= ${i}: ${choice.id} Answer=${choice.description.und}|`;

          const arrayResponses = processStringToArray(s.result.correctResponsesPattern);
          questionCorrectAnswers = '';
          arrayResponses.forEach(cresp => {
              questionCorrectAnswers += ` id=${cresp} Answer=${choice.description.und}|`;
          });

          const arrayUserResponses = processStringToArray(s.result.responses);
          usersAnswer = '';
          arrayUserResponses.forEach(cresp => {
              usersAnswer += ` id=${cresp} Answer=${choice.description.und}|`;
          });

          i++;
      });
  }
  \<close>
\<close>

record questionFields =
  questionAnswers :: string
  questionPassed :: string
  questionCorrectAnswers :: string
  usersAnswer :: string

definition noQuestion :: questionFields where
  "noQuestion = \<lparr>questionAnswers = [], questionPassed = [],
                  questionCorrectAnswers = [], usersAnswer = []\<rparr>"

text \<open>One entry of the inner loops, and the string an inner loop builds from the empty one.\<close>

definition answerEntry :: "jsval \<Rightarrow> string \<Rightarrow> string" where
  "answerEntry und cresp = '' id='' @ cresp @ '' Answer='' @ ToString und @ ''|''"

definition answerEntries :: "jsval \<Rightarrow> string list \<Rightarrow> string" where
  "answerEntries und ids = foldl (\<lambda>acc cresp. acc @ answerEntry und cresp) [] ids"

text \<open>The body of the outer loop, on the fields and the counter \<open>i\<close>.\<close>

definition choiceStep ::
  "jsval \<Rightarrow> questionFields \<times> nat \<Rightarrow> json \<Rightarrow> js_error + questionFields \<times> nat" where
  "choiceStep result st choice =
     andThen (getProp (Some choice) ''id'') (\<lambda>choiceId.
     andThen (getProp (Some choice) ''description'') (\<lambda>description.
     andThen (getProp description ''und'') (\<lambda>und.
     andThen (getProp result ''correctResponsesPattern'') (\<lambda>correctResponsesPattern.
     andThen (processStringToArray correctResponsesPattern) (\<lambda>arrayResponses.
     andThen (getProp result ''responses'') (\<lambda>responses.
     andThen (processStringToArray responses) (\<lambda>arrayUserResponses.
       Inr ((fst st)\<lparr>
              questionAnswers := questionAnswers (fst st) @ ''id= '' @ showNat (snd st) @ '': ''
                 @ ToString choiceId @ '' Answer='' @ ToString und @ ''|'',
              questionCorrectAnswers := answerEntries und arrayResponses,
              usersAnswer := answerEntries und arrayUserResponses\<rparr>,
            Suc (snd st)))))))))"

fun forEachChoice ::
  "jsval \<Rightarrow> json list \<Rightarrow> questionFields \<times> nat \<Rightarrow> js_error + questionFields \<times> nat" where
  "forEachChoice result [] st = Inr st"
| "forEachChoice result (choice # choices) st =
     andThen (choiceStep result st choice) (forEachChoice result choices)"

text \<open>Only an array has \<open>forEach\<close>: any other value decoded from the choices raises a TypeError.\<close>

definition questionBlock :: "jsval \<Rightarrow> js_error + questionFields" where
  "questionBlock result =
     (if truthy result then
        andThen (getProp result ''response'') (\<lambda>response.
          if truthy response then
            andThen (jsonParse response) (\<lambda>res.
            andThen (getProp (Some res) ''success'') (\<lambda>success.
            andThen (getProp result ''choices'') (\<lambda>choices.
            andThen (jsonParse choices) (\<lambda>parsed.
              case parsed of
                JArr cs \<Rightarrow>
                  andThen (forEachChoice result cs
                     (noQuestion\<lparr>questionPassed := (if truthy success then ''True'' else ''False'')\<rparr>, 1))
                    (\<lambda>st. Inr (fst st))
              | _ \<Rightarrow> Inl TypeError))))
          else Inr noQuestion)
      else Inr noQuestion)"

text \<open>
  The actor of a row (lines 193 to 199): the mailbox without its first \<open>mailto:\<close>,
  anonymised when the box is ticked. Only a string has \<open>replace\<close>.
  \<^verbatim>\<open>
  if (obfuscateCheckbox) {
      actor = s.actor.mbox ? obfuscateEmail(s.actor.mbox.replace('mailto:', '')) : '';
  } else {
      actor = s.actor.mbox ? s.actor.mbox.replace('mailto:', '') : '';
  }
  \<close>
\<close>

definition actorField :: "bool \<Rightarrow> json \<Rightarrow> js_error + string" where
  "actorField obfuscateCheckbox s =
     andThen (getProp (Some s) ''actor'') (\<lambda>actor.
     andThen (getProp actor ''mbox'') (\<lambda>mbox.
       if truthy mbox then
         (case mbox of
            Some (JStr m) \<Rightarrow>
              if obfuscateCheckbox then obfuscateEmail (removeFirst ''mailto:'' m)
              else Inr (removeFirst ''mailto:'' m)
          | _ \<Rightarrow> Inl TypeError)
       else Inr []))"

text \<open>
  The duration of a row (lines 206 to 213). The statement was read before, so it is not
  \<open>null\<close> here and reading its result cannot raise. The one exception the block can
  catch is the TypeError of calling \<open>match\<close> on a duration that is not a string; the
  field is then the message of that exception (the text is the engine's; this is V8's).
  \<^verbatim>\<open>
  let duration = "0";
  try {
      if (s.result && s.result.duration) {
          duration = iso8601ToSeconds(s.result.duration);
      }
  } catch (ex) {
      duration = ex.message;
  }
  \<close>
\<close>

definition durationField :: "jsval \<Rightarrow> json" where
  "durationField result =
     (if truthy result \<and> truthy (field result ''duration'') then
        (case field result ''duration'' of
           Some (JStr duration) \<Rightarrow> iso8601ToSeconds duration
         | _ \<Rightarrow> JStr ''duration.match is not a function'')
      else JStr ''0'')"

text \<open>\<^verbatim>\<open>v ? Object.values(v)[0] : ''\<close>, as the verb and the object's name are read.\<close>

definition firstValueOrEmpty :: "jsval \<Rightarrow> jsval" where
  "firstValueOrEmpty v =
     (case v of Some x \<Rightarrow> if truthy v then firstValue x else Some (JStr []) | None \<Rightarrow> Some (JStr []))"

text \<open>The values that the template of line 243 joins with commas.\<close>

record tabularRow =
  rowId :: jsval
  rowActor :: string
  rowVerb :: jsval
  rowObjectId :: jsval
  rowObjectName :: jsval
  rowDuration :: json
  rowQuestion :: questionFields
  rowTimestamp :: jsval

text \<open>
  The callback of \<^verbatim>\<open>statements.map\<close> (lines 191 to 243), up to the template:
  \<^verbatim>\<open>
  const id = s.id;
  var actor = "";
  ...
  const verb = s.verb.display ? Object.values(s.verb.display)[0] : '';
  const objectName = s.object.definition && s.object.definition.name
      ? Object.values(s.object.definition.name)[0] : '';
  const objectId = s.object.id;
  const timestamp = s.timestamp;
  ...
  \<close>
\<close>

definition processRow :: "bool \<Rightarrow> json \<Rightarrow> js_error + tabularRow" where
  "processRow obfuscateCheckbox s =
     andThen (getProp (Some s) ''id'') (\<lambda>id'.
     andThen (actorField obfuscateCheckbox s) (\<lambda>actor.
     andThen (getProp (Some s) ''verb'') (\<lambda>verb.
     andThen (getProp verb ''display'') (\<lambda>display.
     andThen (getProp (Some s) ''object'') (\<lambda>object.
     andThen (getProp object ''definition'') (\<lambda>defn.
     andThen (if truthy defn then getProp defn ''name'' else Inr None) (\<lambda>name.
     andThen (getProp object ''id'') (\<lambda>objectId.
     andThen (getProp (Some s) ''timestamp'') (\<lambda>timestamp.
     andThen (getProp (Some s) ''result'') (\<lambda>result.
     andThen (questionBlock result) (\<lambda>question.
       Inr \<lparr>rowId = id',
            rowActor = actor,
            rowVerb = firstValueOrEmpty display,
            rowObjectId = objectId,
            rowObjectName = firstValueOrEmpty name,
            rowDuration = durationField result,
            rowQuestion = question,
            rowTimestamp = timestamp\<rparr>)))))))))))"

text \<open>
  \<^verbatim>\<open>
  return `${id},${actor},${verb},${objectId},${objectName},${duration},${questionAnswers},${questionPassed},${questionCorrectAnswers},${usersAnswer},${timestamp}`;
  \<close>
\<close>

definition renderRow :: "tabularRow \<Rightarrow> string" where
  "renderRow r = join '',''
     [ToString (rowId r), rowActor r, ToString (rowVerb r), ToString (rowObjectId r),
      ToString (rowObjectName r), toStr (rowDuration r),
      questionAnswers (rowQuestion r), questionPassed (rowQuestion r),
      questionCorrectAnswers (rowQuestion r), usersAnswer (rowQuestion r),
      ToString (rowTimestamp r)]"

section \<open>Fetching the statements\<close>

text \<open>
  The filter of line 161, on one element of the page:
  \<^verbatim>\<open>s => s.actor && s.actor.mbox && s.verb && s.verb.display\<close>.
  \<open>filter\<close> keeps the elements for which the result is truthy; \<open>&&\<close> stops at its
  first falsy operand.
\<close>

definition accept :: "json \<Rightarrow> js_error + bool" where
  "accept s =
     andThen (getProp (Some s) ''actor'') (\<lambda>actor.
       if \<not> truthy actor then Inr False
       else andThen (getProp actor ''mbox'') (\<lambda>mbox.
         if \<not> truthy mbox then Inr False
         else andThen (getProp (Some s) ''verb'') (\<lambda>verb.
           if \<not> truthy verb then Inr False
           else andThen (getProp verb ''display'') (\<lambda>display. Inr (truthy display)))))"

fun filterStatements :: "json list \<Rightarrow> js_error + json list" where
  "filterStatements [] = Inr []"
| "filterStatements (s # ss) =
     andThen (accept s) (\<lambda>keep.
     andThen (filterStatements ss) (\<lambda>rest. Inr (if keep then s # rest else rest)))"

text \<open>
  What the Learning Record Store answers to one request, and whether the stop button was
  clicked while that request was in flight (the click handler sets \<open>isFetching\<close> to
  false; it can only run between two callbacks).
\<close>

record reply =
  status :: int
  response :: string
  stopClicked :: bool

text \<open>
  How the promise of \<open>fetchStatements\<close> ends: resolved with the statements, rejected with
  a message, left unsettled by an exception that escapes from the callback of the request,
  or still waiting for an answer of the store.
\<close>

datatype outcome =
    Resolved "json list"
  | Rejected string
  | Uncaught js_error
  | Pending

text \<open>
  The variables of \<open>fetchStatements\<close> and the flag \<open>isFetching\<close>; the variable
  \<open>more\<close> is the field \<open>moreUrl\<close>.
\<close>

record session =
  allStatements :: "json list"
  moreUrl :: jsval
  fetchedCount :: nat
  isFetching :: bool

text \<open>
  The first part of the callback (lines 150 to 161): the statements of the page that
  pass the filter and the page's \<open>more\<close>, or the way the promise ends. Only an array has
  \<open>filter\<close>.
  \<^verbatim>\<open>
  if (res.status !== 200) {
      reject('Error fetching statements.');
      return;
  }
  const response = JSON.parse(res.response);
  if (!response.statements) {
      reject('No statements found.');
      return;
  }
  const filteredStatements = response.statements.filter(s => ...);
  \<close>
\<close>

definition readPage :: "reply \<Rightarrow> outcome + json list \<times> jsval" where
  "readPage res =
     (if status res \<noteq> 200 then Inl (Rejected ''Error fetching statements.'')
      else case jsonParse (Some (JStr (response res))) of
        Inl e \<Rightarrow> Inl (Uncaught e)
      | Inr body \<Rightarrow>
          (case getProp (Some body) ''statements'' of
             Inl e \<Rightarrow> Inl (Uncaught e)
           | Inr statements \<Rightarrow>
               if \<not> truthy statements then Inl (Rejected ''No statements found.'')
               else (case statements of
                       Some (JArr xs) \<Rightarrow>
                         (case filterStatements xs of
                            Inl e \<Rightarrow> Inl (Uncaught e)
                          | Inr filteredStatements \<Rightarrow>
                              Inr (filteredStatements, field (Some body) ''more''))
                     | _ \<Rightarrow> Inl (Uncaught TypeError))))"

text \<open>
  The recursive function \<open>fetch\<close> (lines 145 to 178), on the answers that the store
  will give, in the order of the requests: the client library is taken to call the
  callback once for every request, with the answer. The query's limit is the number that
  the comparison with \<open>fetchedCount\<close> reads. The progress bar is not modelled.
  \<^verbatim>\<open>
  const fetch = () => {
      if (!isFetching || fetchedCount >= query['limit']) return Promise.resolve(allStatements);
      return new Promise((resolve, reject) => {
          ADL.XAPIWrapper.getStatements(query, more, (res) => {
              ...
              allStatements = allStatements.concat(filteredStatements);
              fetchedCount += filteredStatements.length;
              if (response.more && response.more !== "" && isFetching) {
                  more = response.more;
                  fetch().then(resolve).catch(reject);
              } else {
                  resolve(allStatements);
              }
              ...
          });
      });
  };
  \<close>
\<close>

fun fetch :: "int \<Rightarrow> session \<Rightarrow> reply list \<Rightarrow> outcome" where
  "fetch limit st [] =
     (if \<not> isFetching st \<or> limit \<le> int (fetchedCount st) then Resolved (allStatements st)
      else Pending)"
| "fetch limit st (res # replies) =
     (if \<not> isFetching st \<or> limit \<le> int (fetchedCount st) then Resolved (allStatements st)
      else case readPage (res) of
        Inl ending \<Rightarrow> ending
      | Inr (filteredStatements, responseMore) \<Rightarrow>
          (let st1 = st\<lparr>isFetching := isFetching st \<and> \<not> stopClicked res,
                         allStatements := allStatements st @ filteredStatements,
                         fetchedCount := fetchedCount st + length filteredStatements\<rparr>
           in if truthy responseMore \<and> responseMore \<noteq> Some (JStr []) \<and> isFetching st1
              then fetch limit (st1\<lparr>moreUrl := responseMore\<rparr>) replies
              else Resolved (allStatements st1)))"

text \<open>
  \<^verbatim>\<open>
  const fetchStatements = async (config, query) => {
      let allStatements = [];
      let more = null;
      let fetchedCount = 0;
      ...
      return fetch();
  };
  \<close>
  \<open>fetching\<close> is the flag when the function is called: the form's handler sets it, and a
  click on the stop button during the test of the connection clears it.
\<close>

definition fetchStatements :: "int \<Rightarrow> bool \<Rightarrow> reply list \<Rightarrow> outcome" where
  "fetchStatements limit fetching replies =
     fetch limit \<lparr>allStatements = [], moreUrl = Some JNull, fetchedCount = 0, isFetching = fetching\<rparr>
       replies"

text \<open>The number of statements of an answer that reach the accumulator.\<close>

definition acceptedCount :: "reply \<Rightarrow> nat" where
  "acceptedCount res = (case readPage res of Inr (filteredStatements, m) \<Rightarrow> length filteredStatements
                        | Inl ending \<Rightarrow> 0)"

text \<open>The statements that a sequence of answers adds to the accumulator, page after page.\<close>

definition accumulated :: "reply list \<Rightarrow> json list" where
  "accumulated replies =
     concat (map (\<lambda>res. case readPage res of Inr (filteredStatements, m) \<Rightarrow> filteredStatements
                         | Inl ending \<Rightarrow> []) replies)"

section \<open>Encoding the statements\<close>

text \<open>
  \<^verbatim>\<open>JSON.stringify\<close>: a string is put in quotes, with the quote, the backslash and the
  control characters escaped.
\<close>

definition hexDigit :: "nat \<Rightarrow> char" where
  "hexDigit n = ''0123456789abcdef'' ! (n mod 16)"

definition quoteChar :: "char \<Rightarrow> string" where
  "quoteChar c =
     (if c = CHR 0x22 then [CHR 0x5C, CHR 0x22]
      else if c = CHR 0x5C then [CHR 0x5C, CHR 0x5C]
      else if c = CHR 0x08 then [CHR 0x5C, CHR ''b'']
      else if c = CHR 0x0C then [CHR 0x5C, CHR ''f'']
      else if c = CHR 0x0A then [CHR 0x5C, CHR ''n'']
      else if c = CHR 0x0D then [CHR 0x5C, CHR ''r'']
      else if c = CHR 0x09 then [CHR 0x5C, CHR ''t'']
      else if (of_char c :: nat) < 32 then
        [CHR 0x5C, CHR ''u'', CHR ''0'', CHR ''0'', hexDigit (of_char c div 16), hexDigit (of_char c)]
      else [c])"

definition quote :: "string \<Rightarrow> string" where
  "quote s = CHR 0x22 # concat (map quoteChar s) @ [CHR 0x22]"

text \<open>\<^verbatim>\<open>JSON.stringify(v)\<close>, without white space; \<open>Infinity\<close> is written as \<open>null\<close>.\<close>

fun stringify :: "json \<Rightarrow> string" where
  "stringify JNull = ''null''"
| "stringify (JBool b) = (if b then ''true'' else ''false'')"
| "stringify (JNum n) = numberToString n"
| "stringify JInfinity = ''null''"
| "stringify (JStr s) = quote s"
| "stringify (JArr xs) = ''['' @ join '','' (map stringify xs) @ '']''"
| "stringify (JObj kvs) =
     ''{'' @ join '','' (map (\<lambda>kv. quote (fst kv) @ '':'' @ stringify (snd kv)) kvs) @ ''}''"

text \<open>
  \<^verbatim>\<open>JSON.stringify(v, null, 2)\<close>: every element and member on a line of its own,
  two spaces deeper than the array or object it is in; \<open>ind\<close> is the indentation of the
  value itself.
\<close>

fun stringifyIndent :: "string \<Rightarrow> json \<Rightarrow> string" where
  "stringifyIndent ind (JArr xs) =
     (if xs = [] then ''[]''
      else ''['' @ [CHR 0x0A] @ ind @ ''  ''
           @ join ('','' @ [CHR 0x0A] @ ind @ ''  '') (map (stringifyIndent (ind @ ''  '')) xs)
           @ [CHR 0x0A] @ ind @ '']'')"
| "stringifyIndent ind (JObj kvs) =
     (if kvs = [] then ''{}''
      else ''{'' @ [CHR 0x0A] @ ind @ ''  ''
           @ join ('','' @ [CHR 0x0A] @ ind @ ''  '')
               (map (\<lambda>kv. quote (fst kv) @ '': '' @ stringifyIndent (ind @ ''  '') (snd kv)) kvs)
           @ [CHR 0x0A] @ ind @ ''}'')"
| "stringifyIndent ind v = stringify v"

text \<open>\<open>statements.map(f)\<close> for a callback that can raise.\<close>

fun mapRows :: "('a \<Rightarrow> js_error + 'b) \<Rightarrow> 'a list \<Rightarrow> js_error + 'b list" where
  "mapRows f [] = Inr []"
| "mapRows f (x # xs) = andThen (f x) (\<lambda>y. andThen (mapRows f xs) (\<lambda>ys. Inr (y # ys)))"

text \<open>
  The separator that the source writes as \<^verbatim>\<open>"\\n"\<close>: in a JavaScript string literal
  that is a backslash and the letter \<open>n\<close>, two characters, and not a line feed.
\<close>

definition backslash_n :: string where
  "backslash_n = [CHR 0x5C, CHR ''n'']"

definition csvHeader :: string where
  "csvHeader = ''ID,Actor,Verb,ObjectID,Object,Duration,Question Answers,Question Passed,Question Correct Answers,Users Answer,Timestamp''"

text \<open>
  The encoding of \<open>processStatements\<close> (lines 188 to 261): the data, the MIME type and
  the extension of the file. The download of the file is not modelled.
  \<^verbatim>\<open>
  switch (format) {
      case 'csv':
          data = "ID,...,Timestamp\\n" + statements.map((s, index) => { ... }).join("\\n");
          mimeType = 'text/csv';
          extension = 'csv';
          break;
      case 'jsonl':
          data = statements.map(statement => JSON.stringify(statement)).join('\\n');
          mimeType = 'application/json';
          extension = 'jsonl';
          break;
      case 'raw':
          data = JSON.stringify(statements, null, 2);
          mimeType = 'application/json';
          extension = 'json';
          break;
      default:
          throw new Error('Invalid format selected.');
  }
  \<close>
\<close>

definition processStatements ::
  "json list \<Rightarrow> string \<Rightarrow> bool \<Rightarrow> js_error + string \<times> string \<times> string" where
  "processStatements statements format obfuscateCheckbox =
     (if format = ''csv'' then
        andThen (mapRows (processRow obfuscateCheckbox) statements) (\<lambda>rows.
          Inr (csvHeader @ backslash_n @ join backslash_n (map renderRow rows),
               ''text/csv'', ''csv''))
      else if format = ''jsonl'' then
        Inr (join backslash_n (map stringify statements), ''application/json'', ''jsonl'')
      else if format = ''raw'' then
        Inr (stringifyIndent [] (JArr statements), ''application/json'', ''json'')
      else Inl (Error ''Invalid format selected.''))"

section \<open>The join of responses and choices in the specification\<close>

text \<open>The description that the loops print for a choice: \<^verbatim>\<open>choice.description.und\<close>.\<close>

definition choiceDescription :: "json \<Rightarrow> jsval" where
  "choiceDescription choice = field (field (Some choice) ''description'') ''und''"

text \<open>
  The ids of a pattern, as \<open>processStringToArray\<close> computes them from a string: the
  string is trimmed, an enclosing bracket pair and then an enclosing quote pair are
  stripped, and the rest is split at the delimiter \<^verbatim>\<open>[,]\<close>.
\<close>

definition patternIds :: "string \<Rightarrow> string list" where
  "patternIds str =
     split (stripEnds (CHR 0x22) (CHR 0x22) (stripEnds (CHR ''['') (CHR '']'') (trim str))) ''[,]''"

text \<open>
  Following the words of the specification, not the code: one entry
  \<^verbatim>\<open> id=<id> Answer=<description>|\<close> for every pair of a response id and a choice,
  over all choices.
\<close>

definition crossJoinEntries :: "string list \<Rightarrow> json list \<Rightarrow> string" where
  "crossJoinEntries ids choices =
     concat (map (\<lambda>choice. concat (map (answerEntry (choiceDescription choice)) ids)) choices)"

section \<open>Example inputs\<close>

text \<open>
  A statement that the filter accepts, with a given result:
  \<^verbatim>\<open>{"id":"s1","actor":{"mbox":"mailto:alice@example.com"},
   "verb":{"display":{"en-US":"answered"}},
   "object":{"id":"http://lrs.io/q1","definition":{"name":{"en-US":"Question 1"}}},
   "timestamp":"2024-07-15T10:00:00Z","result":...}\<close>
\<close>

definition answered :: "json \<Rightarrow> json" where
  "answered result =
     JObj [(''id'', JStr ''s1''),
           (''actor'', JObj [(''mbox'', JStr ''mailto:alice@example.com'')]),
           (''verb'', JObj [(''display'', JObj [(''en-US'', JStr ''answered'')])]),
           (''object'', JObj [(''id'', JStr ''http://lrs.io/q1''),
                             (''definition'', JObj [(''name'', JObj [(''en-US'', JStr ''Question 1'')])])]),
           (''timestamp'', JStr ''2024-07-15T10:00:00Z''),
           (''result'', result)]"

text \<open>The text of two choices, \<open>a\<close> (Alpha) and \<open>b\<close> (Beta), as a result carries it.\<close>

definition twoChoices :: string where
  \<open>twoChoices = ''[{"id":"a","description":{"und":"Alpha"}},{"id":"b","description":{"und":"Beta"}}]''\<close>

text \<open>
  A result with a response, the two choices, the correct response \<open>a\<close> and the user's
  responses \<open>a\<close> and \<open>b\<close>.
\<close>

definition questionResult :: json where
  \<open>questionResult =
     JObj [(''response'', JStr ''{"success":true}''),
           (''choices'', JStr twoChoices),
           (''correctResponsesPattern'', JStr ''["a"]''),
           (''responses'', JStr ''a[,]b'')]\<close>

text \<open>Statements without an object, as small as the filter lets them be, and one without a verb.\<close>

definition minimal :: "string \<Rightarrow> json" where
  "minimal n =
     JObj [(''id'', JStr n),
           (''actor'', JObj [(''mbox'', JStr ''mailto:a@x.io'')]),
           (''verb'', JObj [(''display'', JObj [(''en'', JStr ''did'')])])]"

definition minimalText :: "string \<Rightarrow> string" where
  \<open>minimalText n =
     ''{"id":"'' @ n @ ''","actor":{"mbox":"mailto:a@x.io"},"verb":{"display":{"en":"did"}}}''\<close>

definition noVerbText :: string where
  \<open>noVerbText = ''{"id":"9","actor":{"mbox":"mailto:a@x.io"}}''\<close>

text \<open>
  Two pages of a store: the first has one statement that passes the filter and one that
  does not, and a \<open>more\<close> link; the second has two statements that pass and no link.
\<close>

definition firstPage :: reply where
  \<open>firstPage = \<lparr>status = 200,
     response = ''{"statements":['' @ minimalText ''1'' @ '','' @ noVerbText @ ''],"more":"/more/1"}'',
     stopClicked = False\<rparr>\<close>

definition lastPage :: reply where
  \<open>lastPage = \<lparr>status = 200,
     response = ''{"statements":['' @ minimalText ''2'' @ '','' @ minimalText ''3'' @ ''],"more":""}'',
     stopClicked = False\<rparr>\<close>


section \<open>Properties\<close>

lemma splitFrom_no_sep:
  "c \<notin> set s \<Longrightarrow> splitFrom [c] acc s = [rev acc @ s]"
  by (induction s arbitrary: acc) auto

lemma splitFrom_at_first:
  "c \<notin> set s \<Longrightarrow> splitFrom [c] acc (s @ c # t) = (rev acc @ s) # splitFrom [c] [] t"
  by (induction s arbitrary: acc) auto

lemma concat_replicate_single: "concat (replicate n [c]) = replicate n c"
  by (induction n) auto

text \<open>
  C7. On an address with a non-empty local part and one \<open>@\<close>, the anonymisation keeps
  the first character of the local part, replaces each of its other characters with the
  mask character \<open>*\<close>, and leaves the \<open>@\<close> and the domain as they are. So
  \<open>alice@example.com\<close> becomes \<open>a****@example.com\<close>, and \<open>a@b.com\<close> stays
  \<open>a@b.com\<close>: a local part of one character gets no mask character.
\<close>

theorem obfuscateEmail_masks_local_part:
  "(\<forall>localPart domain.
      localPart \<noteq> [] \<and> CHR ''@'' \<notin> set localPart \<and> CHR ''@'' \<notin> set domain \<longrightarrow>
      obfuscateEmail (localPart @ ''@'' @ domain) =
        Inr (hd localPart # replicate (length localPart - 1) (CHR ''*'') @ ''@'' @ domain))
   \<and> obfuscateEmail ''alice@example.com'' = Inr ''a****@example.com''
   \<and> obfuscateEmail ''a@b.com'' = Inr ''a@b.com''"
proof -
  have general: "obfuscateEmail (l @ ''@'' @ d) =
      Inr (hd l # replicate (length l - 1) (CHR ''*'') @ ''@'' @ d)"
    if ne: "l \<noteq> []" and nl: "CHR ''@'' \<notin> set l" and nd: "CHR ''@'' \<notin> set d" for l d
  proof -
    have parts: "split (l @ ''@'' @ d) ''@'' = [l, d]"
      using nl nd splitFrom_at_first [of "CHR ''@''" l "[]" d] splitFrom_no_sep [of "CHR ''@''" d "[]"]
      by (simp add: split_def)
    obtain c cs where l: "l = c # cs" using ne by (cases l) auto
    show ?thesis
      unfolding obfuscateEmail_def parts Let_def
      by (simp add: repeat_def charAt0_def l concat_replicate_single)
  qed
  have ex1: "obfuscateEmail ''alice@example.com'' = Inr ''a****@example.com''"
    using general [of "''alice''" "''example.com''"] by simp
  have ex2: "obfuscateEmail ''a@b.com'' = Inr ''a@b.com''"
    using general [of "''a''" "''b.com''"] by simp
  from general ex1 ex2 show ?thesis by blast
qed

theorem obfuscateEmail_masks_local_part_witness:
  "''bob'' \<noteq> [] \<and> CHR ''@'' \<notin> set ''bob'' \<and> CHR ''@'' \<notin> set ''lrs.io''
   \<and> obfuscateEmail (''bob'' @ ''@'' @ ''lrs.io'') = Inr ''b**@lrs.io''"
  using obfuscateEmail_masks_local_part [THEN conjunct1, rule_format, of "''bob''" "''lrs.io''"]
  by simp

subsection \<open>Durations\<close>

lemma isDigit_letters [simp]:
  "\<not> isDigit (CHR ''H'')" "\<not> isDigit (CHR ''M'')" "\<not> isDigit (CHR ''S'')" "\<not> isDigit (CHR ''.'')"
  by (simp_all add: isDigit_def)

lemma takeWhile_digits:
  "list_all isDigit ds \<Longrightarrow> \<not> isDigit c \<Longrightarrow> takeWhile isDigit (ds @ c # r) = ds"
  by (induction ds) auto

lemma dropWhile_digits:
  "list_all isDigit ds \<Longrightarrow> \<not> isDigit c \<Longrightarrow> dropWhile isDigit (ds @ c # r) = c # r"
  by (induction ds) auto

lemma digitsThen_Nil [simp]: "digitsThen letter [] = None"
  by (simp add: digitsThen_def)

lemma digitsThen_hit:
  "digits ds \<Longrightarrow> \<not> isDigit letter \<Longrightarrow> digitsThen letter (ds @ letter # r) = Some (ds, r)"
  by (simp add: digitsThen_def digits_def takeWhile_digits dropWhile_digits)

lemma digitsThen_miss:
  "list_all isDigit ds \<Longrightarrow> \<not> isDigit c \<Longrightarrow> c \<noteq> letter \<Longrightarrow>
   digitsThen letter (ds @ c # r) = None"
  by (simp add: digitsThen_def takeWhile_digits dropWhile_digits)

lemma digitsThen_sound:
  assumes "digitsThen letter s = Some (ds, r)"
  shows "s = ds @ letter # r \<and> digits ds"
proof -
  from assms obtain c rest where d: "dropWhile isDigit s = c # rest"
    by (auto simp: digitsThen_def Let_def split: list.splits)
  from assms d have ds: "ds = takeWhile isDigit s" and ne: "ds \<noteq> []"
    and c: "c = letter" and r: "r = rest"
    by (auto simp: digitsThen_def Let_def split: if_splits)
  have "s = takeWhile isDigit s @ dropWhile isDigit s" by simp
  with d ds c r have "s = ds @ letter # r" by simp
  moreover have "list_all isDigit ds"
    unfolding ds list_all_iff using set_takeWhileD by fastforce
  ultimately show ?thesis using ne by (simp add: digits_def)
qed

lemma optGroup_part:
  assumes "wellFormedPart p" and "\<not> isDigit letter" and "digitsThen letter rest = None"
  shows "optGroup letter (partText letter p @ rest) = (p, rest)"
proof (cases p)
  case None
  with assms show ?thesis by (simp add: optGroup_def)
next
  case (Some ds)
  with assms show ?thesis by (simp add: optGroup_def digitsThen_hit)
qed

lemma digitsThen_secondsText:
  assumes "wellFormedSeconds s" and "letter \<noteq> CHR ''S''" and "letter \<noteq> CHR ''.''"
  shows "digitsThen letter (secondsText s) = None"
proof (cases s rule: secondsText.cases)
  case 1
  then show ?thesis by simp
next
  case (2 ds)
  with assms show ?thesis
    using digitsThen_miss [of ds "CHR ''S''" letter "[]"] by (simp add: digits_def)
next
  case (3 ds fs)
  with assms show ?thesis
    using digitsThen_miss [of ds "CHR ''.''" letter "fs @ ''S''"] by (simp add: digits_def)
qed

lemma digitsThen_minutes_seconds:
  assumes "wellFormedPart m" and "wellFormedSeconds s"
  shows "digitsThen (CHR ''H'') (partText (CHR ''M'') m @ secondsText s) = None"
proof (cases m)
  case None
  with assms show ?thesis by (simp add: digitsThen_secondsText)
next
  case (Some ds)
  with assms show ?thesis
    using digitsThen_miss [of ds "CHR ''M''" "CHR ''H''" "secondsText s"] by (simp add: digits_def)
qed

lemma secondsGroup_secondsText:
  assumes "wellFormedSeconds s"
  shows "secondsGroup (secondsText s) =
    (map_option fst s, (case s of Some (ds, Some fs) \<Rightarrow> Some (CHR ''.'' # fs) | _ \<Rightarrow> None), [])"
proof (cases s rule: secondsText.cases)
  case 1
  then show ?thesis by (simp add: secondsGroup_def)
next
  case (2 ds)
  with assms have d: "list_all isDigit ds" "ds \<noteq> []" by (simp_all add: digits_def)
  show ?thesis
    using d takeWhile_digits [of ds "CHR ''S''" "[]"] dropWhile_digits [of ds "CHR ''S''" "[]"]
    by (simp add: 2 secondsGroup_def)
next
  case (3 ds fs)
  with assms have d: "list_all isDigit ds" "ds \<noteq> []" and f: "digits fs"
    by (simp_all add: digits_def)
  show ?thesis
    using d takeWhile_digits [of ds "CHR ''.''" "fs @ ''S''"]
      dropWhile_digits [of ds "CHR ''.''" "fs @ ''S''"]
      digitsThen_hit [OF f, of "CHR ''S''" "[]"]
    by (simp add: 3 secondsGroup_def)
qed

lemma matchDuration_durationText:
  assumes "wellFormedPart h" and "wellFormedPart m" and "wellFormedSeconds s"
  shows "matchDuration (durationText h m s) =
    Some (h, m, map_option fst s,
          (case s of Some (ds, Some fs) \<Rightarrow> Some (CHR ''.'' # fs) | _ \<Rightarrow> None))"
proof -
  have h: "optGroup (CHR ''H'') (partText (CHR ''H'') h @ partText (CHR ''M'') m @ secondsText s)
      = (h, partText (CHR ''M'') m @ secondsText s)"
    using assms by (intro optGroup_part) (simp_all add: digitsThen_minutes_seconds)
  have m: "optGroup (CHR ''M'') (partText (CHR ''M'') m @ secondsText s) = (m, secondsText s)"
    using assms by (intro optGroup_part) (simp_all add: digitsThen_secondsText)
  show ?thesis
    by (simp add: matchDuration_def durationText_def h m secondsGroup_secondsText [OF assms(3)])
qed

lemma roundDouble_zero [simp]: "roundDouble 0 = Finite 0"
  by (simp add: roundDouble_def)

lemma bitlen_pos:
  assumes "0 < c"
  shows "0 < bitlen c"
  using assms compute_bitlen [of c] bitlen_nonneg [of "c div 2"] by simp

lemma pow2_powi: "pow2 e = 2 powi e"
  by (simp add: pow2_def power_int_def field_simps)

text \<open>The exponent that \<open>ilog2\<close> reads is not too large: \<open>2 ^ ilog2 x \<le> x\<close>.\<close>

lemma ilog2_lower:
  assumes "0 < x"
  shows "2 powi (ilog2 x) \<le> x"
proof (cases "1 \<le> x")
  case True
  then have p: "0 < \<lfloor>x\<rfloor>" by linarith
  from bitlen_bounds [OF p] have "2 ^ nat (bitlen \<lfloor>x\<rfloor> - 1) \<le> \<lfloor>x\<rfloor>" by simp
  then have "(of_int (2 ^ nat (bitlen \<lfloor>x\<rfloor> - 1)) :: rat) \<le> of_int \<lfloor>x\<rfloor>"
    by (simp only: of_int_le_iff)
  also have "\<dots> \<le> x" by simp
  finally have "(2 :: rat) ^ nat (bitlen \<lfloor>x\<rfloor> - 1) \<le> x" by simp
  moreover have "0 \<le> bitlen \<lfloor>x\<rfloor> - 1" using bitlen_pos [OF p] by simp
  ultimately show ?thesis using True by (simp add: ilog2_def power_int_def)
next
  case False
  define c where "c = \<lceil>1 / x\<rceil> - 1"
  from False assms have "1 < 1 / x" by (simp add: field_simps)
  then have c: "0 < c" unfolding c_def by linarith
  from bitlen_bounds [OF c] have "c + 1 \<le> 2 ^ nat (bitlen c)" by simp
  then have "(of_int (c + 1) :: rat) \<le> of_int (2 ^ nat (bitlen c))"
    by (simp only: of_int_le_iff)
  moreover have "1 / x \<le> of_int (c + 1)" unfolding c_def by simp
  ultimately have "1 / x \<le> 2 ^ nat (bitlen c)" by simp
  with assms have "1 / 2 ^ nat (bitlen c) \<le> x" by (simp add: field_simps)
  moreover have "(2 :: rat) powi (- bitlen c) = 1 / 2 ^ nat (bitlen c)"
    using bitlen_pos [OF c] by (simp add: power_int_def field_simps)
  ultimately show ?thesis using False
    by (simp add: ilog2_def c_def [symmetric])
qed

lemma roundToEven_of_int: "roundToEven (of_int n) = n"
  by (simp add: roundToEven_def)

text \<open>
  The doubles below \<open>2 ^ 53\<close> are the rationals \<open>k / 2 ^ j\<close> with \<open>k < 2 ^ 53\<close> and
  \<open>j \<le> 1074\<close>; rounding leaves them as they are.
\<close>

lemma roundDouble_dyadic:
  assumes k: "k < 2 ^ 53" and j: "j \<le> 1074"
  shows "roundDouble (of_nat k / 2 ^ j) = Finite (of_nat k / 2 ^ j)"
proof (cases "k = 0")
  case True
  then show ?thesis by simp
next
  case False
  define x :: rat where "x = of_nat k / 2 ^ j"
  define e where "e = max (ilog2 x - 52) (- 1074)"
  have pos: "0 < x" using False by (simp add: x_def)
  have xp: "x = of_nat k * 2 powi (- int j)"
    by (simp add: x_def power_int_def field_simps)
  have kr: "(of_nat k :: rat) < 2 ^ 53"
    using k by (metis of_nat_less_iff of_nat_numeral of_nat_power)
  then have "x < 2 powi 53 * 2 powi (- int j)" unfolding xp by simp
  also have "\<dots> = 2 powi (53 - int j)"
    using power_int_add [of "2 :: rat" 53 "- int j"] by simp
  finally have "x < 2 powi (53 - int j)" .
  with ilog2_lower [OF pos] have lt: "(2 :: rat) powi (ilog2 x) < 2 powi (53 - int j)" by simp
  have "ilog2 x < 53 - int j"
  proof (rule ccontr)
    assume "\<not> ilog2 x < 53 - int j"
    then have "53 - int j \<le> ilog2 x" by simp
    from power_int_increasing [OF this, of "2 :: rat"] lt show False by simp
  qed
  with j have e: "e \<le> - int j" by (simp add: e_def)
  define d where "d = nat (- int j - e)"
  have "x / pow2 e = of_nat k * (2 powi (- int j) * 2 powi (- e))"
    by (simp add: xp pow2_powi power_int_minus field_simps)
  also have "2 powi (- int j) * 2 powi (- e) = (2 :: rat) powi (int d)"
    using e by (simp add: power_int_add [symmetric] d_def)
  finally have q: "x / pow2 e = of_int (int (k * 2 ^ d))" by simp
  have prod: "of_int (int (k * 2 ^ d)) * pow2 e = x"
    using q by (simp add: pow2_powi field_simps)
  have "x \<le> of_nat k" by (simp add: x_def field_simps mult_le_cancel_left1)
  also note kr
  also have "(2 :: rat) ^ 53 \<le> 2 ^ 1024" by simp
  finally have small: "\<not> 2 ^ 1024 \<le> x" by simp
  show ?thesis
    unfolding x_def [symmetric] roundDouble_def
    using pos small
    by (simp add: Let_def e_def [symmetric] q roundToEven_of_int prod
        del: of_int_of_nat_eq of_nat_mult of_nat_power)
qed

lemma roundDouble_nat:
  assumes "n < 2 ^ 53"
  shows "roundDouble (of_nat n) = Finite (of_nat n)"
  using roundDouble_dyadic [OF assms, of 0] by simp

lemma fractionRational_nonneg: "0 \<le> fractionRational s"
  by (cases s rule: fractionRational.cases) simp_all

text \<open>
  When the exact total is a double below \<open>2 ^ 53\<close>, no operation of the sum rounds: the
  hours, the minutes, the seconds, the two products and the sums of them are integers
  below \<open>2 ^ 53\<close>, and the fraction is a double too.
\<close>

lemma roundedSeconds_exact:
  assumes k: "k < 2 ^ 53" and j: "j \<le> 1074"
    and t: "exactSeconds h m s = of_nat k / 2 ^ j"
  shows "roundedSeconds h m s = Finite (exactSeconds h m s)"
proof -
  define H M S where "H = partInteger h" and "M = partInteger m" and "S = secondsInteger s"
  define n where "n = H * 3600 + M * 60 + S"
  define f where "f = fractionRational s"
  have f0: "0 \<le> f" unfolding f_def by (rule fractionRational_nonneg)
  have T: "of_nat n + f = (of_nat k :: rat) / 2 ^ j"
    using t by (simp add: exactSeconds_def n_def H_def M_def S_def f_def)
  with f0 have "(of_nat n :: rat) \<le> of_nat k / 2 ^ j" by linarith
  then have "(of_nat n :: rat) * 2 ^ j \<le> of_nat k" by (simp add: field_simps)
  then have "(of_nat (n * 2 ^ j) :: rat) \<le> of_nat k" by simp
  then have nk: "n * 2 ^ j \<le> k" by (simp only: of_nat_le_iff)
  have n: "n < 2 ^ 53"
    using le_less_trans [OF le_trans [OF _ nk] k, of n] by simp
  have hours: "partValue h = Finite (of_nat H)"
    unfolding partValue_def H_def [symmetric]
    by (rule roundDouble_nat) (use n in \<open>simp add: n_def\<close>)
  have minutes: "partValue m = Finite (of_nat M)"
    unfolding partValue_def M_def [symmetric]
    by (rule roundDouble_nat) (use n in \<open>simp add: n_def\<close>)
  have seconds: "secondsValue s = Finite (of_nat S)"
    unfolding secondsValue_def S_def [symmetric]
    by (rule roundDouble_nat) (use n in \<open>simp add: n_def\<close>)
  have a: "numMul (Finite (of_nat H)) (Finite 3600) = Finite (of_nat (H * 3600))"
    using roundDouble_nat [of "H * 3600"] n by (simp add: n_def)
  have b: "numMul (Finite (of_nat M)) (Finite 60) = Finite (of_nat (M * 60))"
    using roundDouble_nat [of "M * 60"] n by (simp add: n_def)
  have c: "numAdd (Finite (of_nat (H * 3600))) (Finite (of_nat (M * 60)))
      = Finite (of_nat (H * 3600 + M * 60))"
    using roundDouble_nat [of "H * 3600 + M * 60"] n by (simp add: n_def)
  have d: "numAdd (Finite (of_nat (H * 3600 + M * 60))) (Finite (of_nat S)) = Finite (of_nat n)"
    using roundDouble_nat [of n] n by (simp add: n_def)
  have fr: "f = of_nat (k - n * 2 ^ j) / 2 ^ j"
    using T nk by (simp add: of_nat_diff field_simps)
  have "roundDouble f = Finite f"
    unfolding fr by (rule roundDouble_dyadic) (use k j in simp_all)
  then have fraction: "fractionValue s = Finite f"
    by (simp add: fractionValue_def f_def)
  have "numAdd (Finite (of_nat n)) (Finite f) = roundDouble (of_nat k / 2 ^ j)"
    by (simp add: T)
  also have "\<dots> = Finite (of_nat k / 2 ^ j)" by (rule roundDouble_dyadic [OF k j])
  finally have e: "numAdd (Finite (of_nat n)) (Finite f) = Finite (exactSeconds h m s)"
    by (simp only: t)
  show ?thesis
    unfolding roundedSeconds_def hours minutes seconds fraction a b c d e ..
qed

lemma iso8601ToSeconds_durationText:
  assumes "wellFormedPart h" and "wellFormedPart m" and "wellFormedSeconds s"
  shows "iso8601ToSeconds (durationText h m s) = numberValue (roundedSeconds h m s)"
  unfolding iso8601ToSeconds_def matchDuration_durationText [OF assms]
  by (cases h; cases m; cases s rule: secondsText.cases)
    (simp_all add: parseInt_def parseFloat_def roundedSeconds_def partValue_def
      secondsValue_def fractionValue_def)

lemma optGroup_sound:
  assumes "optGroup letter s = (p, r)"
  shows "s = partText letter p @ r \<and> wellFormedPart p"
proof (cases "digitsThen letter s")
  case None
  with assms show ?thesis by (auto simp: optGroup_def)
next
  case (Some a)
  obtain ds rest where a: "a = (ds, rest)" by (cases a)
  from digitsThen_sound [of letter s ds rest] Some a assms show ?thesis
    by (auto simp: optGroup_def)
qed

lemma secondsGroup_sound:
  assumes "secondsGroup s = (m3, m4, r)"
  shows "\<exists>sec. wellFormedSeconds sec \<and> s = secondsText sec @ r"
proof (cases m3)
  case None
  with assms have "r = s"
    by (auto simp: secondsGroup_def Let_def split: if_splits list.splits option.splits)
  then have "wellFormedSeconds None \<and> s = secondsText None @ r" by simp
  then show ?thesis by blast
next
  case (Some ds)
  with assms have ne: "takeWhile isDigit s \<noteq> []" and ds: "ds = takeWhile isDigit s"
    by (auto simp: secondsGroup_def Let_def split: if_splits list.splits option.splits)
  from assms Some obtain c rest where d: "dropWhile isDigit s = c # rest"
    by (auto simp: secondsGroup_def Let_def split: if_splits list.splits)
  have s: "s = ds @ c # rest"
    using takeWhile_dropWhile_id [of isDigit s] d ds by simp
  have dd: "digits ds"
    unfolding ds digits_def list_all_iff using ne set_takeWhileD by fastforce
  show ?thesis
  proof (cases "c = CHR ''S''")
    case True
    with assms ne d have "r = rest" by (simp add: secondsGroup_def Let_def)
    with s True dd have "wellFormedSeconds (Some (ds, None)) \<and> s = secondsText (Some (ds, None)) @ r"
      by simp
    then show ?thesis by blast
  next
    case False
    with assms ne d Some obtain fs where c: "c = CHR ''.''"
      and f: "digitsThen (CHR ''S'') rest = Some (fs, r)"
      by (auto simp: secondsGroup_def Let_def split: if_splits option.splits)
    from digitsThen_sound [OF f] have "rest = fs @ CHR ''S'' # r" and "digits fs" by simp_all
    with s c dd have "wellFormedSeconds (Some (ds, Some fs))
        \<and> s = secondsText (Some (ds, Some fs)) @ r"
      by simp
    then show ?thesis by blast
  qed
qed

lemma startsWith_PT:
  assumes "startsWith d ''PT''"
  shows "d = ''PT'' @ drop 2 d"
proof (cases d)
  case Nil
  with assms show ?thesis by simp
next
  case (Cons a d')
  with assms show ?thesis by (cases d') auto
qed

lemma matchDuration_sound:
  assumes "matchDuration d = Some g"
  shows "\<exists>h m s. wellFormedPart h \<and> wellFormedPart m \<and> wellFormedSeconds s
            \<and> d = durationText h m s"
proof -
  from assms have pt: "startsWith d ''PT''"
    by (simp add: matchDuration_def split: if_splits)
  obtain m1 r1 where g1: "optGroup (CHR ''H'') (drop 2 d) = (m1, r1)" by fastforce
  obtain m2 r2 where g2: "optGroup (CHR ''M'') r1 = (m2, r2)" by fastforce
  obtain m3 m4 r3 where g3: "secondsGroup r2 = (m3, m4, r3)" by (cases "secondsGroup r2") auto
  from assms pt g1 g2 g3 have r3: "r3 = []"
    by (simp add: matchDuration_def split: if_splits)
  from secondsGroup_sound [OF g3] r3 obtain sec
    where sec: "wellFormedSeconds sec" "r2 = secondsText sec" by auto
  from optGroup_sound [OF g2] have m: "r1 = partText (CHR ''M'') m2 @ r2" "wellFormedPart m2"
    by simp_all
  from optGroup_sound [OF g1] have h: "drop 2 d = partText (CHR ''H'') m1 @ r1" "wellFormedPart m1"
    by simp_all
  have "d = durationText m1 m2 sec"
    using startsWith_PT [OF pt] h(1) m(1) sec(2) by (simp add: durationText_def)
  with h(2) m(2) sec(1) show ?thesis by blast
qed

lemmas matcher_eval = matchDuration_def optGroup_def secondsGroup_def digitsThen_def isDigit_def

text \<open>The four examples of the specification; their exact totals are doubles.\<close>

lemma iso8601ToSeconds_PT1H2M3S: "iso8601ToSeconds ''PT1H2M3S'' = JNum 3723"
proof -
  have wf: "wellFormedPart (Some ''1'')" "wellFormedPart (Some ''2'')"
    "wellFormedSeconds (Some (''3'', None))"
    by (simp_all add: digits_def isDigit_def)
  have x: "exactSeconds (Some ''1'') (Some ''2'') (Some (''3'', None)) = of_nat 3723 / 2 ^ 0"
    by (simp add: exactSeconds_def digitsValue_def digitVal_def)
  from roundedSeconds_exact [OF _ _ x] iso8601ToSeconds_durationText [OF wf]
  show ?thesis by (simp add: durationText_def x)
qed

lemma iso8601ToSeconds_PT0_5S: "iso8601ToSeconds ''PT0.5S'' = JNum (1 / 2)"
proof -
  have wf: "wellFormedPart None" "wellFormedPart None"
    "wellFormedSeconds (Some (''0'', Some ''5''))"
    by (simp_all add: digits_def isDigit_def)
  have x: "exactSeconds None None (Some (''0'', Some ''5'')) = of_nat 1 / 2 ^ 1"
    by (simp add: exactSeconds_def digitsValue_def digitVal_def)
  from roundedSeconds_exact [OF _ _ x] iso8601ToSeconds_durationText [OF wf]
  show ?thesis by (simp add: durationText_def x)
qed

lemma iso8601ToSeconds_PT: "iso8601ToSeconds ''PT'' = JNum 0"
proof -
  have wf: "wellFormedPart None" "wellFormedPart None" "wellFormedSeconds None"
    by simp_all
  have x: "exactSeconds None None None = of_nat 0 / 2 ^ 0"
    by (simp add: exactSeconds_def)
  from roundedSeconds_exact [OF _ _ x] iso8601ToSeconds_durationText [OF wf]
  show ?thesis by (simp add: durationText_def x)
qed

lemma iso8601ToSeconds_garbage: "iso8601ToSeconds ''garbage'' = JStr []"
  by (simp add: iso8601ToSeconds_def matcher_eval)

text \<open>
  The rounding shows where the exact total is not a double. With \<open>PT1.118S\<close> the
  fraction is the double nearest to 0.118 and the result the double nearest to the sum of
  1 and that double, which JavaScript prints as 1.1179999999999999; and \<open>2 ^ 53 + 1\<close>
  seconds give \<open>2 ^ 53\<close>.
\<close>

lemma roundDouble_one: "roundDouble 1 = Finite 1"
  using roundDouble_nat [of 1] by simp

lemma roundDouble_fraction_118:
  "roundDouble (59 / 500) = Finite (1062849512059437 / 9007199254740992)"
  by code_simp

lemma roundDouble_one_plus_fraction_118:
  "roundDouble (10070048766800429 / 9007199254740992)
     = Finite (2517512191700107 / 2251799813685248)"
  by code_simp

lemma roundDouble_above_2_53: "roundDouble 9007199254740993 = Finite 9007199254740992"
  by code_simp

lemma roundDouble_2_53: "roundDouble 9007199254740992 = Finite 9007199254740992"
  by code_simp

lemma roundedSeconds_PT1_118S:
  "roundedSeconds None None (Some (''1'', Some ''118''))
     = Finite (2517512191700107 / 2251799813685248)"
  by (simp add: roundedSeconds_def partValue_def secondsValue_def fractionValue_def
      digitsValue_def digitVal_def roundDouble_one roundDouble_fraction_118
      roundDouble_one_plus_fraction_118)

lemma iso8601ToSeconds_above_2_53:
  "iso8601ToSeconds ''PT9007199254740993S'' = JNum 9007199254740992"
proof -
  have wf: "wellFormedPart None" "wellFormedPart None"
    "wellFormedSeconds (Some (''9007199254740993'', None))"
    by (simp_all add: digits_def isDigit_def)
  have "roundedSeconds None None (Some (''9007199254740993'', None)) = Finite 9007199254740992"
    by (simp add: roundedSeconds_def partValue_def secondsValue_def fractionValue_def
        digitsValue_def digitVal_def roundDouble_above_2_53 roundDouble_2_53)
  with iso8601ToSeconds_durationText [OF wf] show ?thesis by (simp add: durationText_def)
qed

text \<open>
  C6. On a well-formed duration \<open>PT#H#M#S\<close> the conversion returns
  hours \<open>\<times>\<close> 3600 + minutes \<open>\<times>\<close> 60 + seconds + the fraction, where an absent part counts
  as zero and the numbers, the products and the sums are those of the language: doubles,
  every operation rounded to the nearest double. Whenever the exact total is a double
  below \<open>2 ^ 53\<close> (every total without a fraction below \<open>2 ^ 53\<close> is one), the result is
  the exact total. On every other string the conversion returns the empty string. So
  \<open>PT1H2M3S\<close> gives 3723, \<open>PT0.5S\<close> gives 0.5, \<open>PT\<close> gives 0 and \<open>garbage\<close> gives the
  empty string.
\<close>

theorem iso8601ToSeconds_total_seconds:
  "(\<forall>h m s. wellFormedPart h \<and> wellFormedPart m \<and> wellFormedSeconds s \<longrightarrow>
      iso8601ToSeconds (durationText h m s) = numberValue (roundedSeconds h m s))
   \<and> (\<forall>h m s k j. wellFormedPart h \<and> wellFormedPart m \<and> wellFormedSeconds s
        \<and> (k :: nat) < 2 ^ 53 \<and> (j :: nat) \<le> 1074 \<and> exactSeconds h m s = of_nat k / 2 ^ j \<longrightarrow>
      iso8601ToSeconds (durationText h m s) = JNum (exactSeconds h m s))
   \<and> (\<forall>d. \<not> (\<exists>h m s. wellFormedPart h \<and> wellFormedPart m \<and> wellFormedSeconds s
                      \<and> d = durationText h m s) \<longrightarrow>
        iso8601ToSeconds d = JStr [])
   \<and> iso8601ToSeconds ''PT1H2M3S'' = JNum 3723
   \<and> iso8601ToSeconds ''PT0.5S'' = JNum (1 / 2)
   \<and> iso8601ToSeconds ''PT'' = JNum 0
   \<and> iso8601ToSeconds ''garbage'' = JStr []"
proof -
  have a: "iso8601ToSeconds (durationText h m s) = numberValue (roundedSeconds h m s)"
    if "wellFormedPart h \<and> wellFormedPart m \<and> wellFormedSeconds s" for h m s
    using that by (simp add: iso8601ToSeconds_durationText)
  have b: "iso8601ToSeconds (durationText h m s) = JNum (exactSeconds h m s)"
    if "wellFormedPart h \<and> wellFormedPart m \<and> wellFormedSeconds s
        \<and> k < 2 ^ 53 \<and> j \<le> 1074 \<and> exactSeconds h m s = of_nat k / 2 ^ j" for h m s and k j :: nat
  proof -
    from that have "roundedSeconds h m s = Finite (exactSeconds h m s)"
      by (intro roundedSeconds_exact [of k j]) simp_all
    with that show ?thesis by (simp add: iso8601ToSeconds_durationText)
  qed
  have c: "iso8601ToSeconds d = JStr []"
    if "\<not> (\<exists>h m s. wellFormedPart h \<and> wellFormedPart m \<and> wellFormedSeconds s
                      \<and> d = durationText h m s)" for d
  proof -
    from that matchDuration_sound [of d] have "matchDuration d = None"
      by (cases "matchDuration d") auto
    then show ?thesis by (simp add: iso8601ToSeconds_def)
  qed
  from a b c iso8601ToSeconds_PT1H2M3S iso8601ToSeconds_PT0_5S iso8601ToSeconds_PT
    iso8601ToSeconds_garbage
  show ?thesis by blast
qed

theorem iso8601ToSeconds_total_seconds_witness:
  "wellFormedPart None \<and> wellFormedSeconds (Some (''1'', Some ''118''))
   \<and> durationText None None (Some (''1'', Some ''118'')) = ''PT1.118S''
   \<and> roundedSeconds None None (Some (''1'', Some ''118''))
       = Finite (2517512191700107 / 2251799813685248)
   \<and> iso8601ToSeconds ''PT1.118S'' = JNum (2517512191700107 / 2251799813685248)
   \<and> wellFormedPart (Some ''2'') \<and> wellFormedPart (Some ''30'')
   \<and> wellFormedSeconds (Some (''15'', Some ''25''))
   \<and> durationText (Some ''2'') (Some ''30'') (Some (''15'', Some ''25'')) = ''PT2H30M15.25S''
   \<and> (36061 :: nat) < 2 ^ 53 \<and> (2 :: nat) \<le> 1074
   \<and> exactSeconds (Some ''2'') (Some ''30'') (Some (''15'', Some ''25'')) = of_nat 36061 / 2 ^ 2
   \<and> iso8601ToSeconds ''PT2H30M15.25S'' = JNum (36061 / 4)
   \<and> \<not> (\<exists>h m s. wellFormedPart h \<and> wellFormedPart m \<and> wellFormedSeconds s
                      \<and> ''1H'' = durationText h m s)
   \<and> iso8601ToSeconds ''1H'' = JStr []"
proof -
  have wf1: "wellFormedPart None \<and> wellFormedSeconds (Some (''1'', Some ''118''))"
    by (simp add: digits_def isDigit_def)
  have dt1: "durationText None None (Some (''1'', Some ''118'')) = ''PT1.118S''"
    by (simp add: durationText_def)
  have r1: "roundedSeconds None None (Some (''1'', Some ''118''))
       = Finite (2517512191700107 / 2251799813685248)"
    by (rule roundedSeconds_PT1_118S)
  have wf2: "wellFormedPart (Some ''2'') \<and> wellFormedPart (Some ''30'')
      \<and> wellFormedSeconds (Some (''15'', Some ''25''))"
    by (simp add: digits_def isDigit_def)
  have dt2: "durationText (Some ''2'') (Some ''30'') (Some (''15'', Some ''25'')) = ''PT2H30M15.25S''"
    by (simp add: durationText_def)
  have kj: "(36061 :: nat) < 2 ^ 53 \<and> (2 :: nat) \<le> 1074" by simp
  have x2: "exactSeconds (Some ''2'') (Some ''30'') (Some (''15'', Some ''25'')) = of_nat 36061 / 2 ^ 2"
    by (simp add: exactSeconds_def digitsValue_def digitVal_def)
  have no: "\<not> (\<exists>h m s. wellFormedPart h \<and> wellFormedPart m \<and> wellFormedSeconds s
                      \<and> ''1H'' = durationText h m s)"
    by (simp add: durationText_def)
  from iso8601ToSeconds_total_seconds wf1
  have "iso8601ToSeconds (durationText None None (Some (''1'', Some ''118'')))
      = numberValue (roundedSeconds None None (Some (''1'', Some ''118'')))"
    by blast
  then have a: "iso8601ToSeconds ''PT1.118S'' = JNum (2517512191700107 / 2251799813685248)"
    by (simp add: dt1 r1)
  from iso8601ToSeconds_total_seconds wf2 kj x2
  have "iso8601ToSeconds (durationText (Some ''2'') (Some ''30'') (Some (''15'', Some ''25'')))
      = JNum (exactSeconds (Some ''2'') (Some ''30'') (Some (''15'', Some ''25'')))"
    by blast
  then have b: "iso8601ToSeconds ''PT2H30M15.25S'' = JNum (36061 / 4)"
    by (simp add: dt2 x2)
  from iso8601ToSeconds_total_seconds no have c: "iso8601ToSeconds ''1H'' = JStr []"
    by blast
  from wf1 dt1 r1 a wf2 dt2 kj x2 b no c show ?thesis by blast
qed

subsection \<open>Exceptions and property reads\<close>

lemma andThen_Inr [simp]: "andThen (Inr x) f = f x"
  by (simp add: andThen_def)

lemma andThen_Inl [simp]: "andThen (Inl e) f = Inl e"
  by (simp add: andThen_def)

lemma andThen_eq_Inr: "andThen m f = Inr y \<longleftrightarrow> (\<exists>x. m = Inr x \<and> f x = Inr y)"
  by (cases m) simp_all

lemma getProp_obj [simp]: "getProp (Some (JObj kvs)) k = Inr (map_of kvs k)"
  by (simp add: getProp_def)

lemma getProp_truthy: "truthy v \<Longrightarrow> getProp v k = Inr (field v k)"
  by (cases v rule: truthy.cases) (simp_all add: getProp_def)

lemma getProp_eq_Inr: "getProp v k = Inr x \<Longrightarrow> x = field v k"
  by (simp add: getProp_def split: if_splits)

lemma field_Some_obj: "field v k = Some x \<Longrightarrow> \<exists>kvs. v = Some (JObj kvs)"
  by (cases "(v, k)" rule: field.cases) simp_all

lemma truthy_field_obj: "truthy (field v k) \<Longrightarrow> \<exists>kvs. v = Some (JObj kvs)"
  by (cases "field v k") (auto dest: field_Some_obj)

subsection \<open>The filter\<close>

text \<open>
  C8, as the code has it. A record that is a JSON object is accepted if and only if its
  actor, the actor's mailbox, its verb and the verb's display map are all truthy, that is
  present and not \<open>null\<close>, \<open>false\<close>, zero or the empty string; the filter decides this
  without raising an error.
\<close>

theorem accept_iff_truthy:
  "accept (JObj kvs) =
     Inr (truthy (field (Some (JObj kvs)) ''actor'')
          \<and> truthy (field (field (Some (JObj kvs)) ''actor'') ''mbox'')
          \<and> truthy (field (Some (JObj kvs)) ''verb'')
          \<and> truthy (field (field (Some (JObj kvs)) ''verb'') ''display''))"
  by (simp add: accept_def getProp_truthy)

text \<open>
  A record whose mailbox is the empty string has a mailbox that is not \<open>null\<close>, and a
  verb with a display map, and the filter drops it.
\<close>

theorem accept_empty_mbox_counterexample:
  "field (Some (JObj [(''actor'', JObj [(''mbox'', JStr [])]),
                      (''verb'', JObj [(''display'', JObj [(''en-US'', JStr ''answered'')])])]))
     ''actor'' = Some (JObj [(''mbox'', JStr [])])
   \<and> field (Some (JObj [(''mbox'', JStr [])])) ''mbox'' = Some (JStr [])
   \<and> field (Some (JObj [(''actor'', JObj [(''mbox'', JStr [])]),
                      (''verb'', JObj [(''display'', JObj [(''en-US'', JStr ''answered'')])])]))
     ''verb'' = Some (JObj [(''display'', JObj [(''en-US'', JStr ''answered'')])])
   \<and> field (Some (JObj [(''display'', JObj [(''en-US'', JStr ''answered'')])])) ''display''
     = Some (JObj [(''en-US'', JStr ''answered'')])
   \<and> accept (JObj [(''actor'', JObj [(''mbox'', JStr [])]),
                   (''verb'', JObj [(''display'', JObj [(''en-US'', JStr ''answered'')])])])
     = Inr False"
  by (simp add: accept_def)

subsection \<open>Anonymisation of an empty local part\<close>

lemma splitFrom_first_piece:
  "(case splitFrom [c] acc s of [] \<Rightarrow> [] | p # ps \<Rightarrow> p) = rev acc @ takeWhile (\<lambda>x. x \<noteq> c) s"
  by (induction s arbitrary: acc) auto

lemma obfuscateEmail_empty_local:
  assumes "takeWhile (\<lambda>c. c \<noteq> CHR ''@'') email = []"
  shows "obfuscateEmail email = Inl RangeError"
proof -
  have "(case split email ''@'' of [] \<Rightarrow> [] | p # ps \<Rightarrow> p) = []"
    using splitFrom_first_piece [of "CHR ''@''" "[]" email] assms by (simp add: split_def)
  then show ?thesis
    by (simp add: obfuscateEmail_def Let_def repeat_def)
qed

text \<open>
  C9. On a string whose part before the first \<open>@\<close> is empty (the empty string, or a
  string that starts with \<open>@\<close>) \<open>obfuscateEmail\<close> raises a RangeError, from
  \<open>repeat\<close> with the count \<open>-1\<close>. So the row of a statement whose mailbox, once
  \<open>mailto:\<close> is removed, has an empty local part is not computed when the
  anonymisation is on: the exception leaves the callback.
\<close>

theorem obfuscateEmail_empty_local_part_throws:
  "(\<forall>email. takeWhile (\<lambda>c. c \<noteq> CHR ''@'') email = [] \<longrightarrow> obfuscateEmail email = Inl RangeError)
   \<and> obfuscateEmail ''@example.com'' = Inl RangeError
   \<and> obfuscateEmail [] = Inl RangeError
   \<and> (\<forall>s m. field (field (Some s) ''actor'') ''mbox'' = Some (JStr m) \<and> m \<noteq> []
          \<and> takeWhile (\<lambda>c. c \<noteq> CHR ''@'') (removeFirst ''mailto:'' m) = [] \<longrightarrow>
        processRow True s = Inl RangeError)"
proof (intro conjI allI impI)
  fix email :: string
  assume "takeWhile (\<lambda>c. c \<noteq> CHR ''@'') email = []"
  then show "obfuscateEmail email = Inl RangeError" by (rule obfuscateEmail_empty_local)
next
  show "obfuscateEmail ''@example.com'' = Inl RangeError"
    by (rule obfuscateEmail_empty_local) simp
  show "obfuscateEmail [] = Inl RangeError"
    by (rule obfuscateEmail_empty_local) simp
next
  fix s m
  assume a: "field (field (Some s) ''actor'') ''mbox'' = Some (JStr m) \<and> m \<noteq> []
      \<and> takeWhile (\<lambda>c. c \<noteq> CHR ''@'') (removeFirst ''mailto:'' m) = []"
  then obtain akvs where actor: "field (Some s) ''actor'' = Some (JObj akvs)"
    using field_Some_obj by blast
  then obtain kvs where s: "s = JObj kvs"
    using field_Some_obj by blast
  from a actor have mbox: "map_of akvs ''mbox'' = Some (JStr m)" by simp
  from actor s have act: "map_of kvs ''actor'' = Some (JObj akvs)" by simp
  from a have "obfuscateEmail (removeFirst ''mailto:'' m) = Inl RangeError"
    by (simp add: obfuscateEmail_empty_local)
  with a mbox act have "actorField True s = Inl RangeError"
    by (simp add: actorField_def s)
  then show "processRow True s = Inl RangeError"
    by (simp add: processRow_def s)
qed

theorem obfuscateEmail_empty_local_part_throws_witness:
  "takeWhile (\<lambda>c. c \<noteq> CHR ''@'') ''@lrs.io'' = []
   \<and> obfuscateEmail ''@lrs.io'' = Inl RangeError
   \<and> field (field (Some (JObj [(''id'', JStr ''7''),
                                 (''actor'', JObj [(''mbox'', JStr ''mailto:@lrs.io'')])]))
        ''actor'') ''mbox'' = Some (JStr ''mailto:@lrs.io'')
   \<and> ''mailto:@lrs.io'' \<noteq> []
   \<and> takeWhile (\<lambda>c. c \<noteq> CHR ''@'') (removeFirst ''mailto:'' ''mailto:@lrs.io'') = []
   \<and> processRow True (JObj [(''id'', JStr ''7''),
                            (''actor'', JObj [(''mbox'', JStr ''mailto:@lrs.io'')])])
     = Inl RangeError"
proof -
  have h1: "takeWhile (\<lambda>c. c \<noteq> CHR ''@'') ''@lrs.io'' = []" by simp
  have h2: "field (field (Some (JObj [(''id'', JStr ''7''),
                                 (''actor'', JObj [(''mbox'', JStr ''mailto:@lrs.io'')])]))
        ''actor'') ''mbox'' = Some (JStr ''mailto:@lrs.io'')
      \<and> ''mailto:@lrs.io'' \<noteq> []
      \<and> takeWhile (\<lambda>c. c \<noteq> CHR ''@'') (removeFirst ''mailto:'' ''mailto:@lrs.io'') = []"
    by simp
  from obfuscateEmail_empty_local_part_throws h1
  have a: "obfuscateEmail ''@lrs.io'' = Inl RangeError" by blast
  from obfuscateEmail_empty_local_part_throws h2
  have b: "processRow True (JObj [(''id'', JStr ''7''),
                            (''actor'', JObj [(''mbox'', JStr ''mailto:@lrs.io'')])])
     = Inl RangeError" by blast
  from h1 h2 a b show ?thesis by blast
qed

subsection \<open>The question fields\<close>

lemma andThen_Inr_right [simp]: "andThen m Inr = m"
  by (cases m) simp_all

lemma processRow_question:
  assumes "processRow obfuscateCheckbox s = Inr row"
  shows "questionBlock (field (Some s) ''result'') = Inr (rowQuestion row)"
proof -
  from assms obtain result question
    where r: "getProp (Some s) ''result'' = Inr result"
      and q: "questionBlock result = Inr question"
      and row: "rowQuestion row = question"
    unfolding processRow_def andThen_eq_Inr by force
  from r have "result = field (Some s) ''result''" by (rule getProp_eq_Inr)
  with q row show ?thesis by simp
qed

lemma choiceStep_questionPassed:
  "choiceStep result st choice = Inr st' \<Longrightarrow> questionPassed (fst st') = questionPassed (fst st)"
  unfolding choiceStep_def andThen_eq_Inr by force

lemma forEachChoice_questionPassed:
  "forEachChoice result choices st = Inr st' \<Longrightarrow> questionPassed (fst st') = questionPassed (fst st)"
proof (induction choices arbitrary: st)
  case Nil
  then show ?case by simp
next
  case (Cons choice choices)
  from Cons.prems obtain st1 where s1: "choiceStep result st choice = Inr st1"
    and s2: "forEachChoice result choices st1 = Inr st'"
    by (auto simp: andThen_eq_Inr)
  from Cons.IH [OF s2] choiceStep_questionPassed [OF s1] show ?case by simp
qed

text \<open>What the block does when the response is truthy, with the reads that cannot fail done.\<close>

lemma questionBlock_response:
  assumes "truthy (field result ''response'')"
  shows "questionBlock result =
    andThen (jsonParse (field result ''response'')) (\<lambda>res.
    andThen (getProp (Some res) ''success'') (\<lambda>success.
    andThen (jsonParse (field result ''choices'')) (\<lambda>parsed.
      case parsed of
        JArr cs \<Rightarrow>
          andThen (forEachChoice result cs
             (noQuestion\<lparr>questionPassed := (if truthy success then ''True'' else ''False'')\<rparr>, 1))
            (\<lambda>st. Inr (fst st))
      | _ \<Rightarrow> Inl TypeError)))"
proof -
  from assms obtain kvs where "result = Some (JObj kvs)"
    using truthy_field_obj by blast
  then have t: "truthy result" by simp
  have g: "getProp result k = Inr (field result k)" for k
    using getProp_truthy [OF t] .
  show ?thesis
    unfolding questionBlock_def by (simp only: t g assms if_True andThen_Inr)
qed

lemma questionBlock_questionPassed:
  assumes "questionBlock result = Inr q"
    and "truthy (field result ''response'')"
    and "JSON_parse (ToString (field result ''response'')) = Some res"
  shows "questionPassed q = (if truthy (field (Some res) ''success'') then ''True'' else ''False'')"
proof -
  have parse: "jsonParse (field result ''response'') = Inr res"
    using assms(3) by (simp add: jsonParse_def)
  from assms(1) obtain success parsed
    where s: "getProp (Some res) ''success'' = Inr success"
      and rest: "(case parsed of
          JArr cs \<Rightarrow>
            andThen (forEachChoice result cs
               (noQuestion\<lparr>questionPassed := (if truthy success then ''True'' else ''False'')\<rparr>, 1))
              (\<lambda>st. Inr (fst st))
        | _ \<Rightarrow> Inl TypeError) = Inr q"
    unfolding questionBlock_response [OF assms(2)] parse andThen_eq_Inr by auto
  from rest obtain cs st where
    loop: "forEachChoice result cs
       (noQuestion\<lparr>questionPassed := (if truthy success then ''True'' else ''False'')\<rparr>, 1) = Inr st"
    and q: "q = fst st"
    by (cases parsed) (auto simp: andThen_eq_Inr)
  from forEachChoice_questionPassed [OF loop] q getProp_eq_Inr [OF s] show ?thesis by simp
qed

text \<open>
  C10. When a row is produced for a statement whose \<open>result.response\<close> is truthy and
  decodes to a value whose \<open>success\<close> is absent, \<open>false\<close> or falsy in another way, the
  field \<open>questionPassed\<close> of the row is \<open>False\<close>: an absent flag and an explicit
  \<open>false\<close> give the same field.
\<close>

theorem processRow_questionPassed_False:
  assumes "processRow obfuscateCheckbox s = Inr row"
    and "truthy (field (field (Some s) ''result'') ''response'')"
    and "JSON_parse (ToString (field (field (Some s) ''result'') ''response'')) = Some res"
    and "\<not> truthy (field (Some res) ''success'')"
  shows "questionPassed (rowQuestion row) = ''False''"
  using questionBlock_questionPassed [OF processRow_question [OF assms(1)] assms(2) assms(3)] assms(4)
  by simp

lemmas json_eval = JSON_parse_def jsonParse_def ToString_def skipWs_def isWs_def unescape_def
  parseNumber_def someDigits_def isDigit_def

lemmas row_eval = processRow_def actorField_def questionBlock_def choiceStep_def
  processStringToArray_def durationField_def firstValueOrEmpty_def noQuestion_def
  answerEntries_def answerEntry_def stripEnds_def trim_def isSpace_def split_def Let_def

theorem processRow_questionPassed_False_witness:
  "processRow False (answered (JObj [(''response'', JStr ''{}''), (''choices'', JStr ''[]'')]))
     = Inr \<lparr>rowId = Some (JStr ''s1''), rowActor = ''alice@example.com'',
            rowVerb = Some (JStr ''answered''), rowObjectId = Some (JStr ''http://lrs.io/q1''),
            rowObjectName = Some (JStr ''Question 1''), rowDuration = JStr ''0'',
            rowQuestion = \<lparr>questionAnswers = [], questionPassed = ''False'',
                             questionCorrectAnswers = [], usersAnswer = []\<rparr>,
            rowTimestamp = Some (JStr ''2024-07-15T10:00:00Z'')\<rparr>
   \<and> truthy (field (field (Some (answered (JObj [(''response'', JStr ''{}''), (''choices'', JStr ''[]'')])))
         ''result'') ''response'')
   \<and> JSON_parse (ToString (field (field
         (Some (answered (JObj [(''response'', JStr ''{}''), (''choices'', JStr ''[]'')])))
         ''result'') ''response'')) = Some (JObj [])
   \<and> \<not> truthy (field (Some (JObj [])) ''success'')"
proof -
  let ?s = "answered (JObj [(''response'', JStr ''{}''), (''choices'', JStr ''[]'')])"
  have p: "JSON_parse ''{}'' = Some (JObj [])" "JSON_parse ''[]'' = Some (JArr [])"
    by (simp_all add: json_eval)
  obtain row where row: "processRow False ?s = Inr row"
    by (simp add: answered_def row_eval jsonParse_def ToString_def p)
  have h2: "truthy (field (field (Some ?s) ''result'') ''response'')"
    by (simp add: answered_def)
  have h3: "JSON_parse (ToString (field (field (Some ?s) ''result'') ''response'')) = Some (JObj [])"
    by (simp add: answered_def ToString_def p)
  have h4: "\<not> truthy (field (Some (JObj [])) ''success'')" by simp
  have passed: "questionPassed (rowQuestion row) = ''False''"
    by (rule processRow_questionPassed_False [OF row h2 h3 h4])
  have "processRow False ?s
     = Inr \<lparr>rowId = Some (JStr ''s1''), rowActor = ''alice@example.com'',
            rowVerb = Some (JStr ''answered''), rowObjectId = Some (JStr ''http://lrs.io/q1''),
            rowObjectName = Some (JStr ''Question 1''), rowDuration = JStr ''0'',
            rowQuestion = \<lparr>questionAnswers = [], questionPassed = questionPassed (rowQuestion row),
                             questionCorrectAnswers = [], usersAnswer = []\<rparr>,
            rowTimestamp = Some (JStr ''2024-07-15T10:00:00Z'')\<rparr>"
    using row by (simp add: answered_def row_eval jsonParse_def ToString_def p) auto
  with passed h2 h3 h4 show ?thesis by simp
qed

text \<open>
  C1, at a statement that the filter accepts and whose \<open>result.response\<close> is not JSON:
  \<open>JSON.parse\<close> raises a SyntaxError that nothing catches, and no row is returned. The
  same happens when the response is JSON and \<open>result.choices\<close> is absent.
\<close>

theorem processRow_malformed_response_throws:
  "accept (answered (JObj [(''response'', JStr ''oops'')])) = Inr True
   \<and> JSON_parse ''oops'' = None
   \<and> processRow False (answered (JObj [(''response'', JStr ''oops'')])) = Inl SyntaxError
   \<and> accept (answered (JObj [(''response'', JStr ''{}'')])) = Inr True
   \<and> processRow False (answered (JObj [(''response'', JStr ''{}'')])) = Inl SyntaxError"
proof -
  have p: "JSON_parse ''oops'' = None" "JSON_parse ''{}'' = Some (JObj [])"
    "JSON_parse ''undefined'' = None"
    by (simp_all add: json_eval)
  show ?thesis
    by (simp add: answered_def accept_def row_eval jsonParse_def ToString_def p)
qed

subsection \<open>The answers of the last choice\<close>

lemma foldl_append_concat: "foldl (\<lambda>acc x. acc @ f x) a xs = a @ concat (map f xs)"
  by (induction xs arbitrary: a) simp_all

lemma answerEntries_concat: "answerEntries und ids = concat (map (answerEntry und) ids)"
  by (simp add: answerEntries_def foldl_append_concat)

lemma processStringToArray_Inr:
  assumes "processStringToArray v = Inr ids"
  shows "\<exists>str. v = Some (JStr str) \<and> ids = patternIds str"
proof (cases v)
  case None
  with assms show ?thesis by (simp add: processStringToArray_def)
next
  case (Some x)
  with assms show ?thesis
    by (cases x) (simp_all add: processStringToArray_def patternIds_def)
qed

lemma choiceStep_answers:
  assumes "choiceStep result st choice = Inr st'"
  shows "\<exists>pattern responses.
           field result ''correctResponsesPattern'' = Some (JStr pattern)
         \<and> field result ''responses'' = Some (JStr responses)
         \<and> questionCorrectAnswers (fst st')
             = concat (map (answerEntry (choiceDescription choice)) (patternIds pattern))
         \<and> usersAnswer (fst st')
             = concat (map (answerEntry (choiceDescription choice)) (patternIds responses))"
proof -
  from assms obtain choiceId description und correctResponsesPattern arrayResponses
      responses arrayUserResponses
    where d: "getProp (Some choice) ''description'' = Inr description"
      and u: "getProp description ''und'' = Inr und"
      and c: "getProp result ''correctResponsesPattern'' = Inr correctResponsesPattern"
      and ar: "processStringToArray correctResponsesPattern = Inr arrayResponses"
      and r: "getProp result ''responses'' = Inr responses"
      and au: "processStringToArray responses = Inr arrayUserResponses"
      and st': "st' = ((fst st)\<lparr>
              questionAnswers := questionAnswers (fst st) @ ''id= '' @ showNat (snd st) @ '': ''
                 @ ToString choiceId @ '' Answer='' @ ToString und @ ''|'',
              questionCorrectAnswers := answerEntries und arrayResponses,
              usersAnswer := answerEntries und arrayUserResponses\<rparr>,
            Suc (snd st))"
    unfolding choiceStep_def andThen_eq_Inr by force
  have und: "und = choiceDescription choice"
    using getProp_eq_Inr [OF d] getProp_eq_Inr [OF u] by (simp add: choiceDescription_def)
  from processStringToArray_Inr [OF ar] getProp_eq_Inr [OF c] obtain pattern
    where p: "field result ''correctResponsesPattern'' = Some (JStr pattern)"
      "arrayResponses = patternIds pattern" by auto
  from processStringToArray_Inr [OF au] getProp_eq_Inr [OF r] obtain resp
    where q: "field result ''responses'' = Some (JStr resp)"
      "arrayUserResponses = patternIds resp" by auto
  from st' und p q show ?thesis by (simp add: answerEntries_concat)
qed

lemma forEachChoice_snoc:
  "forEachChoice result (choices @ [choice]) st =
     andThen (forEachChoice result choices st) (\<lambda>st1. choiceStep result st1 choice)"
proof (induction choices arbitrary: st)
  case Nil
  then show ?case by (cases "choiceStep result st choice") simp_all
next
  case (Cons c choices)
  then show ?case by (cases "choiceStep result st c") simp_all
qed

lemma forEachChoice_last:
  assumes "forEachChoice result choices st = Inr st'" and "choices \<noteq> []"
  shows "\<exists>st1. choiceStep result st1 (last choices) = Inr st'"
proof -
  from assms(2) have "choices = butlast choices @ [last choices]" by simp
  then have "forEachChoice result (butlast choices @ [last choices]) st = Inr st'"
    using assms(1) by simp
  then show ?thesis
    unfolding forEachChoice_snoc andThen_eq_Inr by blast
qed

text \<open>
  C4, as the code has it. When the question fields are computed (the response is truthy)
  and the choices decode to an array, the correct-response pattern and the user's response
  pattern are each turned into ids by trimming, stripping an enclosing bracket pair and
  quote pair and splitting at \<^verbatim>\<open>[,]\<close>, and every choice pairs each id with its own
  description; but both strings are emptied at the start of every choice. So in the end
  \<open>questionCorrectAnswers\<close> and \<open>usersAnswer\<close> hold one entry
  \<^verbatim>\<open> id=<id> Answer=<description>|\<close> for every response id, all with the description
  of the last choice, and they are empty when there is no choice.
\<close>

theorem questionBlock_answers_of_last_choice:
  assumes "questionBlock result = Inr q"
    and "truthy (field result ''response'')"
    and "JSON_parse (ToString (field result ''choices'')) = Some (JArr choices)"
  shows "(choices = [] \<longrightarrow> questionCorrectAnswers q = [] \<and> usersAnswer q = [])
       \<and> (choices \<noteq> [] \<longrightarrow>
            (\<exists>pattern responses.
                field result ''correctResponsesPattern'' = Some (JStr pattern)
              \<and> field result ''responses'' = Some (JStr responses)
              \<and> questionCorrectAnswers q
                  = concat (map (answerEntry (choiceDescription (last choices))) (patternIds pattern))
              \<and> usersAnswer q
                  = concat (map (answerEntry (choiceDescription (last choices))) (patternIds responses))))"
proof -
  have parse: "jsonParse (field result ''choices'') = Inr (JArr choices)"
    using assms(3) by (simp add: jsonParse_def)
  from assms(1) obtain success st
    where loop: "forEachChoice result choices
        (noQuestion\<lparr>questionPassed := (if truthy success then ''True'' else ''False'')\<rparr>, 1) = Inr st"
      and q: "q = fst st"
    unfolding questionBlock_response [OF assms(2)] parse by (auto simp: andThen_eq_Inr)
  have none: "questionCorrectAnswers q = [] \<and> usersAnswer q = []" if "choices = []"
    using that loop q by (auto simp: noQuestion_def)
  have some: "\<exists>pattern responses.
                field result ''correctResponsesPattern'' = Some (JStr pattern)
              \<and> field result ''responses'' = Some (JStr responses)
              \<and> questionCorrectAnswers q
                  = concat (map (answerEntry (choiceDescription (last choices))) (patternIds pattern))
              \<and> usersAnswer q
                  = concat (map (answerEntry (choiceDescription (last choices))) (patternIds responses))"
    if ne: "choices \<noteq> []"
  proof -
    from forEachChoice_last [OF loop ne] obtain st1
      where "choiceStep result st1 (last choices) = Inr st" by blast
    from choiceStep_answers [OF this] q show ?thesis by simp
  qed
  from none some show ?thesis by blast
qed

lemma twoChoices_parse:
  "JSON_parse twoChoices =
     Some (JArr [JObj [(''id'', JStr ''a''), (''description'', JObj [(''und'', JStr ''Alpha'')])],
                 JObj [(''id'', JStr ''b''), (''description'', JObj [(''und'', JStr ''Beta'')])]])"
  by (simp add: twoChoices_def json_eval)

lemma success_parse: \<open>JSON_parse ''{"success":true}'' = Some (JObj [(''success'', JBool True)])\<close>
  by (simp add: json_eval)

lemma showNat_digits: "showNat (Suc 0) = ''1''" "showNat (Suc (Suc 0)) = ''2''"
  by (simp_all add: showNat.simps digitChar_def)

lemma questionResult_block:
  "questionBlock (Some questionResult) =
     Inr \<lparr>questionAnswers = ''id= 1: a Answer=Alpha|id= 2: b Answer=Beta|'',
          questionPassed = ''True'',
          questionCorrectAnswers = '' id=a Answer=Beta|'',
          usersAnswer = '' id=a Answer=Beta| id=b Answer=Beta|''\<rparr>"
  by (simp add: questionResult_def row_eval jsonParse_def ToString_def twoChoices_parse
      success_parse showNat_digits)

theorem questionBlock_answers_of_last_choice_witness:
  "questionBlock (Some questionResult) =
     Inr \<lparr>questionAnswers = ''id= 1: a Answer=Alpha|id= 2: b Answer=Beta|'',
          questionPassed = ''True'',
          questionCorrectAnswers = '' id=a Answer=Beta|'',
          usersAnswer = '' id=a Answer=Beta| id=b Answer=Beta|''\<rparr>
   \<and> truthy (field (Some questionResult) ''response'')
   \<and> JSON_parse (ToString (field (Some questionResult) ''choices'')) =
       Some (JArr [JObj [(''id'', JStr ''a''), (''description'', JObj [(''und'', JStr ''Alpha'')])],
                   JObj [(''id'', JStr ''b''), (''description'', JObj [(''und'', JStr ''Beta'')])]])
   \<and> (\<exists>pattern responses.
         field (Some questionResult) ''correctResponsesPattern'' = Some (JStr pattern)
       \<and> field (Some questionResult) ''responses'' = Some (JStr responses)
       \<and> '' id=a Answer=Beta|''
           = concat (map (answerEntry (Some (JStr ''Beta''))) (patternIds pattern))
       \<and> '' id=a Answer=Beta| id=b Answer=Beta|''
           = concat (map (answerEntry (Some (JStr ''Beta''))) (patternIds responses)))"
proof -
  have h2: "truthy (field (Some questionResult) ''response'')"
    by (simp add: questionResult_def)
  have h3: "JSON_parse (ToString (field (Some questionResult) ''choices'')) =
       Some (JArr [JObj [(''id'', JStr ''a''), (''description'', JObj [(''und'', JStr ''Alpha'')])],
                   JObj [(''id'', JStr ''b''), (''description'', JObj [(''und'', JStr ''Beta'')])]])"
    by (simp add: questionResult_def ToString_def twoChoices_parse)
  from questionBlock_answers_of_last_choice [OF questionResult_block h2 h3]
  have "\<exists>pattern responses.
         field (Some questionResult) ''correctResponsesPattern'' = Some (JStr pattern)
       \<and> field (Some questionResult) ''responses'' = Some (JStr responses)
       \<and> '' id=a Answer=Beta|''
           = concat (map (answerEntry (Some (JStr ''Beta''))) (patternIds pattern))
       \<and> '' id=a Answer=Beta| id=b Answer=Beta|''
           = concat (map (answerEntry (Some (JStr ''Beta''))) (patternIds responses))"
    by (simp add: choiceDescription_def)
  with questionResult_block h2 h3 show ?thesis by blast
qed

text \<open>
  With the two choices \<open>a\<close> (Alpha) and \<open>b\<close> (Beta) and the correct response \<open>a\<close>,
  the pairs are (a, Alpha) and (a, Beta); \<open>questionCorrectAnswers\<close> holds the entry of
  the second pair only, and \<open>usersAnswer\<close> two of the four entries of its pairs.
\<close>

theorem questionBlock_cross_join_counterexample:
  "questionBlock (Some questionResult) =
     Inr \<lparr>questionAnswers = ''id= 1: a Answer=Alpha|id= 2: b Answer=Beta|'',
          questionPassed = ''True'',
          questionCorrectAnswers = '' id=a Answer=Beta|'',
          usersAnswer = '' id=a Answer=Beta| id=b Answer=Beta|''\<rparr>
   \<and> crossJoinEntries (patternIds ''[\"a\"]'')
        [JObj [(''id'', JStr ''a''), (''description'', JObj [(''und'', JStr ''Alpha'')])],
         JObj [(''id'', JStr ''b''), (''description'', JObj [(''und'', JStr ''Beta'')])]]
       = '' id=a Answer=Alpha| id=a Answer=Beta|''
   \<and> '' id=a Answer=Beta|'' \<noteq> '' id=a Answer=Alpha| id=a Answer=Beta|''
   \<and> crossJoinEntries (patternIds ''a[,]b'')
        [JObj [(''id'', JStr ''a''), (''description'', JObj [(''und'', JStr ''Alpha'')])],
         JObj [(''id'', JStr ''b''), (''description'', JObj [(''und'', JStr ''Beta'')])]]
       = '' id=a Answer=Alpha| id=b Answer=Alpha| id=a Answer=Beta| id=b Answer=Beta|''
   \<and> '' id=a Answer=Beta| id=b Answer=Beta|''
       \<noteq> '' id=a Answer=Alpha| id=b Answer=Alpha| id=a Answer=Beta| id=b Answer=Beta|''"
proof -
  have ids: "patternIds ''[\"a\"]'' = [''a'']" "patternIds ''a[,]b'' = [''a'', ''b'']"
    by (simp_all add: patternIds_def stripEnds_def trim_def isSpace_def split_def)
  show ?thesis
    by (simp add: questionResult_block ids crossJoinEntries_def choiceDescription_def
        answerEntry_def ToString_def)
qed

subsection \<open>Pagination\<close>

lemma readPage_Inl:
  assumes "readPage res = Inl ending"
  shows "(\<exists>msg. ending = Rejected msg) \<or> (\<exists>e. ending = Uncaught e)"
  using assms
  by (auto simp: readPage_def split: if_splits sum.splits option.splits json.splits)

lemma readPage_not_Resolved: "readPage res = Inl ending \<Longrightarrow> ending \<noteq> Resolved stmts"
  using readPage_Inl by fastforce

lemma readPage_not_Pending: "readPage res = Inl ending \<Longrightarrow> ending \<noteq> Pending"
  using readPage_Inl by fastforce

lemma acceptedCount_Inr: "readPage res = Inr (fs, m) \<Longrightarrow> acceptedCount res = length fs"
  by (simp add: acceptedCount_def)

lemma fetch_bound:
  assumes "fetch limit st replies = Resolved stmts"
    and "length (allStatements st) = fetchedCount st"
    and "\<forall>res \<in> set replies. acceptedCount res \<le> p"
  shows "int (length stmts) \<le> max (int (fetchedCount st)) (limit - 1 + int p)"
  using assms
proof (induction replies arbitrary: st)
  case Nil
  then show ?case by (auto split: if_splits)
next
  case (Cons res replies)
  show ?case
  proof (cases "\<not> isFetching st \<or> limit \<le> int (fetchedCount st)")
    case True
    with Cons.prems show ?thesis by auto
  next
    case False
    show ?thesis
    proof (cases "readPage res")
      case (Inl ending)
      with False Cons.prems(1) readPage_not_Resolved [OF Inl] show ?thesis by simp
    next
      case (Inr page)
      obtain fs m where page: "page = (fs, m)" by (cases page)
      let ?st1 = "st\<lparr>isFetching := isFetching st \<and> \<not> stopClicked res,
                      allStatements := allStatements st @ fs,
                      fetchedCount := fetchedCount st + length fs\<rparr>"
      from Inr page Cons.prems(3) have fs: "length fs \<le> p"
        using acceptedCount_Inr [of res fs m] by simp
      from False have below: "int (fetchedCount st) \<le> limit - 1" by simp
      show ?thesis
      proof (cases "truthy m \<and> m \<noteq> Some (JStr []) \<and> isFetching ?st1")
        case True
        with False Inr page Cons.prems(1)
        have run: "fetch limit (?st1\<lparr>moreUrl := m\<rparr>) replies = Resolved stmts"
          by (simp add: Let_def)
        have inv: "length (allStatements (?st1\<lparr>moreUrl := m\<rparr>)) = fetchedCount (?st1\<lparr>moreUrl := m\<rparr>)"
          using Cons.prems(2) by simp
        from Cons.IH [OF run inv] Cons.prems(3)
        have "int (length stmts) \<le> max (int (fetchedCount st + length fs)) (limit - 1 + int p)"
          by simp
        with fs below show ?thesis by simp
      next
        case stop: False
        with False Inr page Cons.prems(1) have "stmts = allStatements st @ fs"
          by (auto simp: Let_def)
        with Cons.prems(2) fs below show ?thesis by simp
      qed
    qed
  qed
qed

text \<open>
  While the run waits for an answer after the answers \<open>before\<close>, the flag is set, fewer
  records than the limit are accumulated, and the run goes on from there.
\<close>

lemma fetch_Pending:
  assumes "fetch limit st before = Pending"
  shows "\<exists>st'. isFetching st' \<and> int (fetchedCount st') < limit
           \<and> allStatements st' = allStatements st @ accumulated before
           \<and> fetchedCount st' = fetchedCount st + length (accumulated before)
           \<and> (\<forall>rest. fetch limit st (before @ rest) = fetch limit st' rest)"
  using assms
proof (induction before arbitrary: st)
  case Nil
  then have "isFetching st \<and> int (fetchedCount st) < limit"
    by (auto split: if_splits)
  then show ?case by (auto simp: accumulated_def)
next
  case (Cons res before)
  from Cons.prems have go: "\<not> (\<not> isFetching st \<or> limit \<le> int (fetchedCount st))"
    by (auto split: if_splits)
  show ?case
  proof (cases "readPage res")
    case (Inl ending)
    with go Cons.prems readPage_not_Pending [OF Inl] show ?thesis by simp
  next
    case (Inr page)
    obtain fs m where page: "page = (fs, m)" by (cases page)
    let ?st1 = "st\<lparr>isFetching := isFetching st \<and> \<not> stopClicked res,
                    allStatements := allStatements st @ fs,
                    fetchedCount := fetchedCount st + length fs\<rparr>"
    from go Inr page Cons.prems
    have cont: "truthy m \<and> m \<noteq> Some (JStr []) \<and> isFetching ?st1"
      and run: "fetch limit (?st1\<lparr>moreUrl := m\<rparr>) before = Pending"
      by (auto simp: Let_def split: if_splits)
    from Cons.IH [OF run] obtain st'
      where st': "isFetching st'" "int (fetchedCount st') < limit"
        "allStatements st' = allStatements (?st1\<lparr>moreUrl := m\<rparr>) @ accumulated before"
        "\<forall>rest. fetch limit (?st1\<lparr>moreUrl := m\<rparr>) (before @ rest) = fetch limit st' rest"
        and count: "fetchedCount st' = fetchedCount (?st1\<lparr>moreUrl := m\<rparr>) + length (accumulated before)"
      by blast
    have acc: "accumulated (res # before) = fs @ accumulated before"
      by (simp add: accumulated_def Inr page)
    have step: "fetch limit st ((res # before) @ rest) = fetch limit st' rest" for rest
      using go Inr page cont st'(4) by (simp add: Let_def)
    from st'(1,2,3) count acc step show ?thesis by auto
  qed
qed

lemma firstPage_read: "readPage firstPage = Inr ([minimal ''1''], Some (JStr ''/more/1''))"
  by (simp add: readPage_def firstPage_def minimalText_def noVerbText_def minimal_def
      json_eval accept_def)

lemma lastPage_read: "readPage lastPage = Inr ([minimal ''2'', minimal ''3''], Some (JStr []))"
  by (simp add: readPage_def lastPage_def minimalText_def minimal_def json_eval accept_def)

lemma page_flags: "stopClicked firstPage = False" "stopClicked lastPage = False"
  by (simp_all add: firstPage_def lastPage_def)

lemma two_pages_run:
  "fetchStatements 2 True [firstPage, lastPage] = Resolved [minimal ''1'', minimal ''2'', minimal ''3'']"
  by (simp add: fetchStatements_def firstPage_read lastPage_read page_flags Let_def)

lemma one_page_pending: "fetchStatements 10 True [firstPage] = Pending"
  by (simp add: fetchStatements_def firstPage_read page_flags Let_def)

text \<open>
  C2, as the code has it. A page is requested only while fewer records than the limit
  have been accumulated: at every point where the run waits for an answer, the accumulator
  holds fewer records than the limit. All the records of a page that pass the filter are
  then appended, without truncation. So when no page contributes more than \<open>p\<close>
  records, the accumulator that \<open>fetchStatements\<close> returns holds at most
  \<open>limit - 1 + p\<close> records (none when that is negative): it can exceed the limit, by
  less than the size of the last page.
\<close>

theorem fetchStatements_count_bound:
  assumes "\<forall>res \<in> set replies. acceptedCount res \<le> p"
  shows "(fetchStatements limit fetching replies = Pending \<longrightarrow>
            int (length (accumulated replies)) < limit)
       \<and> (\<forall>stmts. fetchStatements limit fetching replies = Resolved stmts \<longrightarrow>
            int (length stmts) \<le> max 0 (limit - 1 + int p))"
proof (intro conjI allI impI)
  assume "fetchStatements limit fetching replies = Pending"
  from fetch_Pending [OF this [unfolded fetchStatements_def]]
  show "int (length (accumulated replies)) < limit" by auto
next
  fix stmts
  assume "fetchStatements limit fetching replies = Resolved stmts"
  with fetch_bound [of limit "\<lparr>allStatements = [], moreUrl = Some JNull, fetchedCount = 0,
      isFetching = fetching\<rparr>" replies stmts p] assms
  show "int (length stmts) \<le> max 0 (limit - 1 + int p)"
    by (simp add: fetchStatements_def)
qed

theorem fetchStatements_count_bound_witness:
  "acceptedCount firstPage \<le> 2 \<and> acceptedCount lastPage \<le> 2
   \<and> fetchStatements 10 True [firstPage] = Pending
   \<and> int (length (accumulated [firstPage])) < 10
   \<and> fetchStatements 2 True [firstPage, lastPage] = Resolved [minimal ''1'', minimal ''2'', minimal ''3'']
   \<and> int (length [minimal ''1'', minimal ''2'', minimal ''3'']) \<le> max 0 (2 - 1 + int 2)"
proof -
  have c: "acceptedCount firstPage \<le> 2 \<and> acceptedCount lastPage \<le> 2"
    by (simp add: acceptedCount_def firstPage_read lastPage_read)
  then have h1: "\<forall>res \<in> set [firstPage]. acceptedCount res \<le> 2"
    and h2: "\<forall>res \<in> set [firstPage, lastPage]. acceptedCount res \<le> 2"
    by simp_all
  from fetchStatements_count_bound [OF h1, of 10 True] one_page_pending
  have a: "int (length (accumulated [firstPage])) < 10" by blast
  from fetchStatements_count_bound [OF h2, of 2 True] two_pages_run
  have b: "int (length [minimal ''1'', minimal ''2'', minimal ''3'']) \<le> max 0 (2 - 1 + int 2)"
    by blast
  from c one_page_pending a two_pages_run b show ?thesis by blast
qed

text \<open>
  With the limit 2, a first page of one accepted and one rejected record and a second
  page of two accepted records, the accumulator returned holds three records.
\<close>

theorem fetchStatements_exceeds_limit_counterexample:
  "acceptedCount firstPage = 1 \<and> acceptedCount lastPage = 2
   \<and> fetchStatements 2 True [firstPage, lastPage]
       = Resolved [minimal ''1'', minimal ''2'', minimal ''3'']
   \<and> \<not> int (length [minimal ''1'', minimal ''2'', minimal ''3'']) \<le> 2"
  by (simp add: two_pages_run acceptedCount_def firstPage_read lastPage_read)

subsection \<open>Cancellation\<close>





subsection \<open>The line-delimited encoding\<close>

lemma digitChar_digit: "digitChar n \<in> set ''0123456789''"
  unfolding digitChar_def by (rule nth_mem) simp

lemma showNat_chars: "set (showNat n) \<subseteq> set ''0123456789''"
proof (induction n rule: showNat.induct)
  case (1 n)
  show ?case
  proof (cases "n < 10")
    case True
    then show ?thesis using digitChar_digit [of n] by (subst showNat.simps) simp
  next
    case False
    with 1 digitChar_digit [of "n mod 10"] show ?thesis by (subst showNat.simps) simp
  qed
qed

lemma fractionDigits_chars: "set (fractionDigits k q) \<subseteq> set ''0123456789''"
proof (induction k arbitrary: q)
  case 0
  then show ?case by simp
next
  case (Suc k)
  with digitChar_digit [of "nat \<lfloor>q * 10\<rfloor>"] show ?case by simp
qed

lemma numberToString_no_line_feed: "CHR 0x0A \<notin> set (numberToString q)"
  using showNat_chars [of "nat \<lfloor>\<bar>q\<bar>\<rfloor>"] fractionDigits_chars [of 17 "\<bar>q\<bar> - of_int \<lfloor>\<bar>q\<bar>\<rfloor>"]
  by (auto simp: numberToString_def Let_def)

lemma hexDigit_digit: "hexDigit n \<in> set ''0123456789abcdef''"
  unfolding hexDigit_def by (rule nth_mem) simp

lemma quoteChar_no_line_feed: "CHR 0x0A \<notin> set (quoteChar c)"
  using hexDigit_digit [of "of_char c div 16"] hexDigit_digit [of "of_char c"]
  by (auto simp: quoteChar_def)

lemma quote_no_line_feed: "CHR 0x0A \<notin> set (quote s)"
  by (simp add: quote_def quoteChar_no_line_feed)

lemma join_chars: "set (join sep xs) \<subseteq> set sep \<union> (\<Union>x \<in> set xs. set x)"
  by (induction sep xs rule: join.induct) auto

lemma join_no_char:
  assumes "c \<notin> set sep" and "\<And>x. x \<in> set xs \<Longrightarrow> c \<notin> set x"
  shows "c \<notin> set (join sep xs)"
  using join_chars [of sep xs] assms by auto

lemma stringify_no_line_feed: "CHR 0x0A \<notin> set (stringify v)"
proof (induction v)
  case (JArr xs)
  have "CHR 0x0A \<notin> set (join '','' (map stringify xs))"
    by (rule join_no_char) (use JArr in auto)
  then show ?case by simp
next
  case (JObj kvs)
  have item: "CHR 0x0A \<notin> set (quote (fst kv) @ '':'' @ stringify (snd kv))" if "kv \<in> set kvs" for kv
    using JObj [of kv "snd kv"] that quote_no_line_feed [of "fst kv"] by (cases kv) auto
  have "CHR 0x0A \<notin> set (join '','' (map (\<lambda>kv. quote (fst kv) @ '':'' @ stringify (snd kv)) kvs))"
    by (rule join_no_char) (use item in auto)
  then show ?case by simp
qed (simp_all add: numberToString_no_line_feed quote_no_line_feed)

lemma jsonl_one_line:
  "\<exists>data. processStatements statements ''jsonl'' obfuscateCheckbox = Inr (data, ''application/json'', ''jsonl'')
     \<and> split data [CHR 0x0A] = [data]"
proof -
  let ?data = "join backslash_n (map stringify statements)"
  have "CHR 0x0A \<notin> set ?data"
    by (rule join_no_char) (use stringify_no_line_feed in \<open>auto simp: backslash_n_def\<close>)
  then have "split ?data [CHR 0x0A] = [?data]"
    using splitFrom_no_sep [of "CHR 0x0A" ?data "[]"] by (simp add: split_def)
  then show ?thesis by (simp add: processStatements_def)
qed

lemma minimal_stringify: "stringify (minimal ''1'') = minimalText ''1''"
  "stringify (minimal ''2'') = minimalText ''2''"
  by (simp_all add: minimal_def minimalText_def quote_def quoteChar_def)

lemma minimal_parse: "JSON_parse (minimalText ''1'') = Some (minimal ''1'')"
  "JSON_parse (minimalText ''2'') = Some (minimal ''2'')"
  by (simp_all add: minimal_def minimalText_def json_eval)

text \<open>
  C3, for the format \<open>jsonl\<close>, at two statements. The statements are joined by a
  backslash and the letter \<open>n\<close>: the data holds no line feed, so splitting it at the
  line feeds gives one piece for the two statements, and that piece is not JSON. Each
  statement's own text would decode to the statement, and the data of the format \<open>raw\<close>
  decodes to the two statements. For every collection of statements the data of the format
  \<open>jsonl\<close> is one piece, since \<open>stringify\<close> writes no line feed.
\<close>

theorem processStatements_jsonl_one_line:
  "processStatements [minimal ''1'', minimal ''2''] ''jsonl'' False
     = Inr (minimalText ''1'' @ [CHR 0x5C, CHR ''n''] @ minimalText ''2'',
            ''application/json'', ''jsonl'')
   \<and> split (minimalText ''1'' @ [CHR 0x5C, CHR ''n''] @ minimalText ''2'') [CHR 0x0A]
     = [minimalText ''1'' @ [CHR 0x5C, CHR ''n''] @ minimalText ''2'']
   \<and> JSON_parse (minimalText ''1'' @ [CHR 0x5C, CHR ''n''] @ minimalText ''2'') = None
   \<and> map JSON_parse [minimalText ''1'', minimalText ''2'']
     = [Some (minimal ''1''), Some (minimal ''2'')]
   \<and> map_sum id (JSON_parse \<circ> fst) (processStatements [minimal ''1'', minimal ''2''] ''raw'' False)
     = Inr (Some (JArr [minimal ''1'', minimal ''2'']))
   \<and> (\<forall>statements. \<exists>data.
         processStatements statements ''jsonl'' False = Inr (data, ''application/json'', ''jsonl'')
         \<and> split data [CHR 0x0A] = [data])"
proof -
  have raw: "map_sum id (JSON_parse \<circ> fst)
      (processStatements [minimal ''1'', minimal ''2''] ''raw'' False)
     = Inr (Some (JArr [minimal ''1'', minimal ''2'']))"
    by (simp add: processStatements_def minimal_def quote_def quoteChar_def json_eval)
  have enc: "processStatements [minimal ''1'', minimal ''2''] ''jsonl'' False
     = Inr (minimalText ''1'' @ [CHR 0x5C, CHR ''n''] @ minimalText ''2'',
            ''application/json'', ''jsonl'')"
    by (simp add: processStatements_def minimal_stringify backslash_n_def)
  have pieces: "split (minimalText ''1'' @ [CHR 0x5C, CHR ''n''] @ minimalText ''2'') [CHR 0x0A]
     = [minimalText ''1'' @ [CHR 0x5C, CHR ''n''] @ minimalText ''2'']"
    by (simp add: split_def minimalText_def)
  have bad: "JSON_parse (minimalText ''1'' @ [CHR 0x5C, CHR ''n''] @ minimalText ''2'') = None"
    by (simp add: minimalText_def json_eval)
  from enc pieces bad minimal_parse raw jsonl_one_line show ?thesis by simp
qed

end
